theory Spec2Isabelle
  imports Main "HOL-Library.Char_ord" "HOL-Library.List_Lexorder"
begin

section \<open>SeisFlows session state: a model of \<^verbatim>\<open>seisflows/config.py\<close>\<close>

text \<open>
  The module \<^verbatim>\<open>config.py\<close> keeps the state of a session in the interpreter's module table
  \<^verbatim>\<open>sys.modules\<close>: two configuration mappings (\<^verbatim>\<open>seisflows_parameters\<close>,
  \<^verbatim>\<open>seisflows_paths\<close>) and one component instance per role (\<^verbatim>\<open>seisflows_system\<close>, ...).
  It offers \<^verbatim>\<open>save\<close>, \<^verbatim>\<open>load\<close>, \<^verbatim>\<open>flush\<close>, the resolver \<^verbatim>\<open>custom_import\<close>
  and a pickle adapter for bound methods.

  The file needs Python 3 (its interpreter line names \<^verbatim>\<open>python3\<close>, it uses f-strings and
  imports \<^verbatim>\<open>copyreg\<close>), so the model follows the Python 3 object model. Strings are
  ASCII texts; exceptions are values of \<open>pyerror\<close>; mutation of \<^verbatim>\<open>sys.modules\<close> and of the
  disk is explicit state passing.
\<close>

subsection \<open>Exceptions\<close>

datatype pyerror =
    KeyError
  | AttributeError
  | TypeError
  | UnboundLocalError
  | FileNotFoundError
  | NotADirectoryError
  | IsADirectoryError
  | JSONDecodeError
  | UnpicklingError
  | PicklingError
  | ImportError

subsection \<open>Python values\<close>

text \<open>
  A function object is known by its \<^verbatim>\<open>__name__\<close> and an identity (two classes may define
  functions of the same name). A class has a name and a dictionary of functions; a type is
  a class together with the rest of its method-resolution order, so \<^verbatim>\<open>cls.mro()\<close> is the
  class itself followed by its ancestors.
\<close>

datatype pyfunc = PyFunc (fn_name: string) (fn_id: nat)

datatype pyclass = PyClass (cls_name: string) (cls_dict: "(string \<times> pyfunc) list")

datatype pytype = PyType (ty_class: pyclass) (ty_ancestors: "pyclass list")

definition mro :: "pytype \<Rightarrow> pyclass list" where
  "mro cls = ty_class cls # ty_ancestors cls"

text \<open>
  The values a session holds: scalars, lists, dictionaries with string keys, instances
  (class name and \<^verbatim>\<open>__dict__\<close>), plain functions, and bound methods (\<^verbatim>\<open>__func__\<close> and
  \<^verbatim>\<open>__self__\<close>, the two attributes a Python 3 method object has). A plain function is
  either defined at the top of a module or in a class body (\<open>VFunction\<close>: it can be found
  again under its qualified name), or it is a lambda or a function defined inside another
  function (\<open>VLocalFunction\<close>). The classes of instances are classes of the package,
  defined at the top of their modules.
\<close>

datatype pyval =
    VNone
  | VBool bool
  | VInt int
  | VStr string
  | VList "pyval list"
  | VDict "(string \<times> pyval) list"
  | VInstance string "(string \<times> pyval) list"
  | VFunction pyfunc
  | VLocalFunction pyfunc
  | VMethod pyfunc pyval

type_synonym modules = "string \<rightharpoonup> pyval"

text \<open>Subscription \<^verbatim>\<open>v[k]\<close> with a string key: only a dictionary answers it.\<close>

fun getitem :: "pyval \<Rightarrow> string \<Rightarrow> pyerror + pyval" where
  "getitem (VDict d) k = (case map_of d k of None \<Rightarrow> Inl KeyError | Some v \<Rightarrow> Inr v)"
| "getitem _ k = Inl TypeError"

subsection \<open>String methods on ASCII text\<close>

definition ascii_lowercase :: string where
  "ascii_lowercase = ''abcdefghijklmnopqrstuvwxyz''"

definition ascii_uppercase :: string where
  "ascii_uppercase = ''ABCDEFGHIJKLMNOPQRSTUVWXYZ''"

definition is_lower :: "char \<Rightarrow> bool" where
  "is_lower c = (c \<in> set ascii_lowercase)"

definition is_upper :: "char \<Rightarrow> bool" where
  "is_upper c = (c \<in> set ascii_uppercase)"

definition upper_char :: "char \<Rightarrow> char" where
  "upper_char c = (case map_of (zip ascii_lowercase ascii_uppercase) c of Some u \<Rightarrow> u | None \<Rightarrow> c)"

definition lower_char :: "char \<Rightarrow> char" where
  "lower_char c = (case map_of (zip ascii_uppercase ascii_lowercase) c of Some l \<Rightarrow> l | None \<Rightarrow> c)"

text \<open>\<^verbatim>\<open>str.upper()\<close>.\<close>

definition upper :: "string \<Rightarrow> string" where
  "upper s = map upper_char s"

text \<open>\<^verbatim>\<open>str.isupper()\<close>: there is a cased character and no cased character is lowercase.\<close>

definition isupper :: "string \<Rightarrow> bool" where
  "isupper s = (list_ex is_upper s \<and> \<not> list_ex is_lower s)"

text \<open>
  \<^verbatim>\<open>str.title()\<close>: a cased character is uppercased when the character before it is
  uncased (or there is none) and lowercased otherwise; the flag is "the previous character
  is cased".
\<close>

fun title_from :: "bool \<Rightarrow> string \<Rightarrow> string" where
  "title_from prev [] = []"
| "title_from prev (c # cs) =
     (if is_lower c then (if prev then c else upper_char c) # title_from True cs
      else if is_upper c then (if prev then lower_char c else c) # title_from True cs
      else c # title_from False cs)"

definition title :: "string \<Rightarrow> string" where
  "title s = title_from False s"

text \<open>\<^verbatim>\<open>s.replace("_", "")\<close>: every underscore is dropped.\<close>

definition replace_underscore :: "string \<Rightarrow> string" where
  "replace_underscore s = filter (\<lambda>c. c \<noteq> CHR ''_'') s"

subsection \<open>The resolver \<^verbatim>\<open>custom_import\<close>\<close>

definition NAMES :: "string list" where
  "NAMES = [''system'', ''preprocess'', ''solver'', ''postprocess'', ''optimize'', ''workflow'']"

text \<open>
  What the package offers is outside \<^verbatim>\<open>config.py\<close>: \<^verbatim>\<open>module_exists\<close> (from
  \<^verbatim>\<open>seisflows.tools.wrappers\<close>) and \<^verbatim>\<open>import_module\<close> are parameters. An imported
  module is its namespace, a map from attribute names to what \<^verbatim>\<open>getattr\<close> returns.
\<close>

record 'c package =
  module_exists :: "string \<Rightarrow> bool"
  import_module :: "string \<Rightarrow> pyerror + (string \<rightharpoonup> 'c)"

text \<open>
  The outcomes of a call: a value is returned, the sentinel \<^verbatim>\<open>Null\<close> is returned,
  \<^verbatim>\<open>sys.exit\<close> ends the process, or an exception leaves the function. The messages
  printed before \<^verbatim>\<open>sys.exit\<close> are not modelled.
\<close>

datatype 'c import_result = Return 'c | ReturnNull | SysExit int | Raise pyerror

text \<open>Line 222: \<^verbatim>\<open>sys.modules["seisflows_parameters"][name.upper()]\<close>.\<close>

definition configured_module :: "modules \<Rightarrow> string \<Rightarrow> pyerror + pyval" where
  "configured_module mods name =
     (case mods ''seisflows_parameters'' of
        None \<Rightarrow> Inl KeyError
      | Some par \<Rightarrow> getitem par (upper name))"

text \<open>
  Lines 230--236: the class name. An override is used as it is; otherwise a fully
  uppercase module name is kept and any other one is title-cased with its underscores
  removed.
\<close>

definition resolve_classname :: "string \<Rightarrow> string option \<Rightarrow> string" where
  "resolve_classname module classname =
     (case classname of
        Some c \<Rightarrow> c
      | None \<Rightarrow> if isupper module then upper module else replace_underscore (title module))"

text \<open>Lines 238--264: the module must exist, import, and have the attribute.\<close>

definition import_class :: "'c package \<Rightarrow> string \<Rightarrow> string \<Rightarrow> string \<Rightarrow> 'c import_result" where
  "import_class pkg name module classname =
     (let full_dotted_name = ''seisflows.'' @ name @ ''.'' @ module in
      if \<not> module_exists pkg full_dotted_name then SysExit (- 1)
      else (case import_module pkg full_dotted_name of
              Inl e \<Rightarrow> SysExit (- 1)
            | Inr namespace \<Rightarrow>
                (case namespace classname of
                   Some c \<Rightarrow> Return c
                 | None \<Rightarrow> SysExit (- 1))))"

text \<open>
  A module name taken from the parameters may be any value. A string goes on to the
  import; on any other value \<^verbatim>\<open>module.isupper()\<close> raises \<^verbatim>\<open>AttributeError\<close>, or, with a
  class name given, \<^verbatim>\<open>".".join\<close> raises \<^verbatim>\<open>TypeError\<close>.
\<close>

definition import_value :: "'c package \<Rightarrow> string \<Rightarrow> pyval \<Rightarrow> string option \<Rightarrow> 'c import_result" where
  "import_value pkg name module classname =
     (case module of
        VStr m \<Rightarrow> import_class pkg name m (resolve_classname m classname)
      | _ \<Rightarrow> (case classname of None \<Rightarrow> Raise AttributeError | Some c \<Rightarrow> Raise TypeError))"

definition custom_import ::
  "'c package \<Rightarrow> modules \<Rightarrow> string option \<Rightarrow> string option \<Rightarrow> string option \<Rightarrow> 'c import_result" where
  "custom_import pkg mods name module classname =
     (case name of
        None \<Rightarrow> SysExit (- 1)
      | Some name \<Rightarrow>
          (if name \<notin> set NAMES then SysExit (- 1)
           else (case module of
                   Some m \<Rightarrow> import_value pkg name (VStr m) classname
                 | None \<Rightarrow>
                     (case configured_module mods name of
                        Inl KeyError \<Rightarrow> ReturnNull
                      | Inl e \<Rightarrow> Raise e
                      | Inr VNone \<Rightarrow> ReturnNull
                      | Inr m \<Rightarrow> import_value pkg name m classname))))"

subsection \<open>The process state\<close>

text \<open>
  JSON documents and pickle streams are kept as syntax trees. A pickle stream stores a
  function by reference and an instance as its class name and state; \<open>KReduce\<close> is the
  entry the adapter below produces: \<^verbatim>\<open>_unpickle_method\<close> with its three arguments.
\<close>

datatype json =
    JNull
  | JBool bool
  | JInt int
  | JStr string
  | JArr "json list"
  | JObj "(string \<times> json) list"

datatype pickled =
    KNone
  | KBool bool
  | KInt int
  | KStr string
  | KList "pickled list"
  | KDict "(string \<times> pickled) list"
  | KInst string "(string \<times> pickled) list"
  | KGlobal pyfunc
  | KReduce string pickled pytype

text \<open>
  A file holds a JSON text written with some indentation, a pickle stream, or \<open>Partial\<close>:
  a file that was opened for writing and not (completely) written, which no reader accepts.
\<close>

datatype content = JsonText nat json | PickleData pickled | Partial

record disk_state =
  dirs :: "string set"
  files :: "string \<rightharpoonup> content"

record world =
  sys_modules :: modules
  disk :: disk_state

subsection \<open>\<^verbatim>\<open>flush\<close>\<close>

text \<open>\<^verbatim>\<open>del d[k]\<close> raises \<^verbatim>\<open>KeyError\<close> when the key is absent.\<close>

definition del_item :: "modules \<Rightarrow> string \<Rightarrow> pyerror + modules" where
  "del_item m k = (if m k = None then Inl KeyError else Inr (m(k := None)))"

fun flush_loop :: "string list \<Rightarrow> modules \<Rightarrow> pyerror option \<times> modules" where
  "flush_loop [] m = (None, m)"
| "flush_loop (name # rest) m =
     (let mod_name = ''seisflows_'' @ name in
      if m mod_name \<noteq> None
      then (case del_item m mod_name of
              Inl e \<Rightarrow> (Some e, m)
            | Inr m' \<Rightarrow> flush_loop rest m')
      else flush_loop rest m)"

definition flush :: "world \<Rightarrow> pyerror option \<times> world" where
  "flush w = (case flush_loop NAMES (sys_modules w) of (r, m) \<Rightarrow> (r, w\<lparr>sys_modules := m\<rparr>))"

subsection \<open>The pickle adapter for bound methods\<close>

text \<open>
  Attribute access on function and method objects. A Python 3 method object has
  \<^verbatim>\<open>__func__\<close> and \<^verbatim>\<open>__self__\<close> and passes every other name on to its function; the
  function has \<^verbatim>\<open>__name__\<close>. (Functions carry no attributes set by the user.) The names
  \<^verbatim>\<open>im_func\<close>, \<^verbatim>\<open>im_self\<close> and \<^verbatim>\<open>im_class\<close> belonged to Python 2 method objects.
\<close>

datatype attr = AFunc pyfunc | AObj pyval | AStr string | AType pytype

definition function_getattr :: "pyfunc \<Rightarrow> string \<Rightarrow> pyerror + attr" where
  "function_getattr f a = (if a = ''__name__'' then Inr (AStr (fn_name f)) else Inl AttributeError)"

definition method_getattr :: "pyfunc \<Rightarrow> pyval \<Rightarrow> string \<Rightarrow> pyerror + attr" where
  "method_getattr f self a =
     (if a = ''__func__'' then Inr (AFunc f)
      else if a = ''__self__'' then Inr (AObj self)
      else function_getattr f a)"

fun attr_getattr :: "attr \<Rightarrow> string \<Rightarrow> pyerror + attr" where
  "attr_getattr (AFunc f) a = function_getattr f a"
| "attr_getattr _ a = Inl AttributeError"

text \<open>
  \<^verbatim>\<open>_pickle_method(method)\<close>, on the method object with function \<open>f\<close> bound to \<open>self\<close>
  (the adapter is registered for \<^verbatim>\<open>types.MethodType\<close>). It returns the arguments for
  \<^verbatim>\<open>_unpickle_method\<close>.
\<close>

definition pickle_method :: "pyfunc \<Rightarrow> pyval \<Rightarrow> pyerror + (attr \<times> attr \<times> attr)" where
  "pickle_method f self =
     (case method_getattr f self ''im_func'' of
        Inl e \<Rightarrow> Inl e
      | Inr im_func \<Rightarrow>
          (case attr_getattr im_func ''__name__'' of
             Inl e \<Rightarrow> Inl e
           | Inr func_name \<Rightarrow>
               (case method_getattr f self ''im_self'' of
                  Inl e \<Rightarrow> Inl e
                | Inr obj \<Rightarrow>
                    (case method_getattr f self ''im_class'' of
                       Inl e \<Rightarrow> Inl e
                     | Inr cls \<Rightarrow> Inr (func_name, obj, cls)))))"

text \<open>
  The loop of \<^verbatim>\<open>_unpickle_method\<close>: the first class of the resolution order whose
  dictionary has the name, with that class (the loop variable \<^verbatim>\<open>cls\<close>). \<open>None\<close> when the
  loop ends without \<^verbatim>\<open>break\<close>; then \<^verbatim>\<open>func\<close> was never assigned.
\<close>

fun mro_lookup :: "string \<Rightarrow> pyclass list \<Rightarrow> (pyfunc \<times> pyclass) option" where
  "mro_lookup func_name [] = None"
| "mro_lookup func_name (c # rest) =
     (case map_of (cls_dict c) func_name of
        None \<Rightarrow> mro_lookup func_name rest
      | Some func \<Rightarrow> Some (func, c))"

text \<open>\<^verbatim>\<open>func.__get__(obj, cls)\<close>: the function bound to \<open>obj\<close>; with \<^verbatim>\<open>None\<close> for the
  object, Python 3 returns the plain function.\<close>

definition function_get :: "pyfunc \<Rightarrow> pyval \<Rightarrow> pyclass \<Rightarrow> pyval" where
  "function_get func obj cls = (if obj = VNone then VFunction func else VMethod func obj)"

definition unpickle_method :: "string \<Rightarrow> pyval \<Rightarrow> pytype \<Rightarrow> pyerror + pyval" where
  "unpickle_method func_name obj cls =
     (case mro_lookup func_name (mro cls) of
        None \<Rightarrow> Inl UnboundLocalError
      | Some (func, c) \<Rightarrow> Inr (function_get func obj c))"

subsection \<open>JSON\<close>

text \<open>
  \<^verbatim>\<open>json.dump(v, f, sort_keys=True, indent=4)\<close> as a function to the document written:
  instances, functions and methods are not serializable (\<^verbatim>\<open>TypeError\<close>, the only error
  there is), and the items of every dictionary are written in the order of their keys.
\<close>

fun json_dump :: "pyval \<Rightarrow> pyerror + json"
  and json_dump_list :: "pyval list \<Rightarrow> pyerror + json list"
  and json_dump_items :: "(string \<times> pyval) list \<Rightarrow> pyerror + (string \<times> json) list" where
  "json_dump VNone = Inr JNull"
| "json_dump (VBool b) = Inr (JBool b)"
| "json_dump (VInt i) = Inr (JInt i)"
| "json_dump (VStr s) = Inr (JStr s)"
| "json_dump (VList xs) = (case json_dump_list xs of Inl e \<Rightarrow> Inl e | Inr js \<Rightarrow> Inr (JArr js))"
| "json_dump (VDict d) =
     (case json_dump_items d of Inl e \<Rightarrow> Inl e | Inr kjs \<Rightarrow> Inr (JObj (sort_key fst kjs)))"
| "json_dump (VInstance c d) = Inl TypeError"
| "json_dump (VFunction f) = Inl TypeError"
| "json_dump (VLocalFunction f) = Inl TypeError"
| "json_dump (VMethod f self) = Inl TypeError"
| "json_dump_list [] = Inr []"
| "json_dump_list (x # xs) =
     (case json_dump x of
        Inl e \<Rightarrow> Inl e
      | Inr j \<Rightarrow> (case json_dump_list xs of Inl e \<Rightarrow> Inl e | Inr js \<Rightarrow> Inr (j # js)))"
| "json_dump_items [] = Inr []"
| "json_dump_items ((k, v) # kvs) =
     (case json_dump v of
        Inl e \<Rightarrow> Inl e
      | Inr j \<Rightarrow> (case json_dump_items kvs of Inl e \<Rightarrow> Inl e | Inr kjs \<Rightarrow> Inr ((k, j) # kjs)))"

text \<open>\<^verbatim>\<open>json.load\<close>, on a document.\<close>

fun json_load :: "json \<Rightarrow> pyval"
  and json_load_list :: "json list \<Rightarrow> pyval list"
  and json_load_items :: "(string \<times> json) list \<Rightarrow> (string \<times> pyval) list" where
  "json_load JNull = VNone"
| "json_load (JBool b) = VBool b"
| "json_load (JInt i) = VInt i"
| "json_load (JStr s) = VStr s"
| "json_load (JArr js) = VList (json_load_list js)"
| "json_load (JObj kjs) = VDict (json_load_items kjs)"
| "json_load_list [] = []"
| "json_load_list (j # js) = json_load j # json_load_list js"
| "json_load_items [] = []"
| "json_load_items ((k, j) # kjs) = (k, json_load j) # json_load_items kjs"

text \<open>
  Modelled from the spec: the class \<^verbatim>\<open>Dict\<close> of \<^verbatim>\<open>seisflows.core\<close>, which is not among
  the sources. The spec calls the two configuration entries mappings, so \<^verbatim>\<open>Dict(x)\<close> is
  the dictionary \<open>x\<close>, subscripted as a dictionary (\<open>getitem\<close>); built from a document that
  is not an object it is taken to raise \<^verbatim>\<open>TypeError\<close>.
\<close>

fun Dict :: "pyval \<Rightarrow> pyerror + pyval" where
  "Dict (VDict d) = Inr (VDict d)"
| "Dict _ = Inl TypeError"

subsection \<open>Pickle\<close>

text \<open>
  \<^verbatim>\<open>pickle.dump\<close> as a function to the stream written. Line 304 registers
  \<^verbatim>\<open>_pickle_method\<close> in the \<^verbatim>\<open>copyreg\<close> dispatch table for method objects, and the
  pickler asks that table before anything else for a value that is not of a built-in
  data type: a bound method is written as what \<^verbatim>\<open>_pickle_method\<close> returns, and an
  exception of \<^verbatim>\<open>_pickle_method\<close> leaves \<^verbatim>\<open>pickle.dump\<close>. A function is written by
  reference, as its qualified name; for a lambda or a local function, which has none that
  can be looked up, pickle raises \<^verbatim>\<open>PicklingError\<close>.
\<close>

function (sequential) pickle_dump :: "pyval \<Rightarrow> pyerror + pickled"
  and pickle_dump_list :: "pyval list \<Rightarrow> pyerror + pickled list"
  and pickle_dump_items :: "(string \<times> pyval) list \<Rightarrow> pyerror + (string \<times> pickled) list" where
  "pickle_dump VNone = Inr KNone"
| "pickle_dump (VBool b) = Inr (KBool b)"
| "pickle_dump (VInt i) = Inr (KInt i)"
| "pickle_dump (VStr s) = Inr (KStr s)"
| "pickle_dump (VList xs) = (case pickle_dump_list xs of Inl e \<Rightarrow> Inl e | Inr ks \<Rightarrow> Inr (KList ks))"
| "pickle_dump (VDict d) = (case pickle_dump_items d of Inl e \<Rightarrow> Inl e | Inr ks \<Rightarrow> Inr (KDict ks))"
| "pickle_dump (VInstance c d) =
     (case pickle_dump_items d of Inl e \<Rightarrow> Inl e | Inr ks \<Rightarrow> Inr (KInst c ks))"
| "pickle_dump (VFunction f) = Inr (KGlobal f)"
| "pickle_dump (VLocalFunction f) = Inl PicklingError"
| "pickle_dump (VMethod f self) =
     (case pickle_method f self of
        Inl e \<Rightarrow> Inl e
      | Inr (AStr func_name, AObj obj, AType cls) \<Rightarrow>
          (case pickle_dump obj of Inl e \<Rightarrow> Inl e | Inr k \<Rightarrow> Inr (KReduce func_name k cls))
      | Inr _ \<Rightarrow> Inl PicklingError)"
| "pickle_dump_list [] = Inr []"
| "pickle_dump_list (x # xs) =
     (case pickle_dump x of
        Inl e \<Rightarrow> Inl e
      | Inr k \<Rightarrow> (case pickle_dump_list xs of Inl e \<Rightarrow> Inl e | Inr ks \<Rightarrow> Inr (k # ks)))"
| "pickle_dump_items [] = Inr []"
| "pickle_dump_items ((a, v) # kvs) =
     (case pickle_dump v of
        Inl e \<Rightarrow> Inl e
      | Inr k \<Rightarrow> (case pickle_dump_items kvs of Inl e \<Rightarrow> Inl e | Inr ks \<Rightarrow> Inr ((a, k) # ks)))"
  by pat_completeness auto
termination
  by (lexicographic_order simp: pickle_method_def method_getattr_def function_getattr_def)

text \<open>
  \<^verbatim>\<open>pickle.load\<close>, on a stream: a \<open>KReduce\<close> entry calls \<^verbatim>\<open>_unpickle_method\<close> on
  its loaded arguments.
\<close>

fun pickle_load :: "pickled \<Rightarrow> pyerror + pyval"
  and pickle_load_list :: "pickled list \<Rightarrow> pyerror + pyval list"
  and pickle_load_items :: "(string \<times> pickled) list \<Rightarrow> pyerror + (string \<times> pyval) list" where
  "pickle_load KNone = Inr VNone"
| "pickle_load (KBool b) = Inr (VBool b)"
| "pickle_load (KInt i) = Inr (VInt i)"
| "pickle_load (KStr s) = Inr (VStr s)"
| "pickle_load (KList ks) = (case pickle_load_list ks of Inl e \<Rightarrow> Inl e | Inr xs \<Rightarrow> Inr (VList xs))"
| "pickle_load (KDict ks) = (case pickle_load_items ks of Inl e \<Rightarrow> Inl e | Inr d \<Rightarrow> Inr (VDict d))"
| "pickle_load (KInst c ks) =
     (case pickle_load_items ks of Inl e \<Rightarrow> Inl e | Inr d \<Rightarrow> Inr (VInstance c d))"
| "pickle_load (KGlobal f) = Inr (VFunction f)"
| "pickle_load (KReduce func_name k cls) =
     (case pickle_load k of Inl e \<Rightarrow> Inl e | Inr obj \<Rightarrow> unpickle_method func_name obj cls)"
| "pickle_load_list [] = Inr []"
| "pickle_load_list (k # ks) =
     (case pickle_load k of
        Inl e \<Rightarrow> Inl e
      | Inr x \<Rightarrow> (case pickle_load_list ks of Inl e \<Rightarrow> Inl e | Inr xs \<Rightarrow> Inr (x # xs)))"
| "pickle_load_items [] = Inr []"
| "pickle_load_items ((a, k) # ks) =
     (case pickle_load k of
        Inl e \<Rightarrow> Inl e
      | Inr v \<Rightarrow> (case pickle_load_items ks of Inl e \<Rightarrow> Inl e | Inr d \<Rightarrow> Inr ((a, v) # d)))"

subsection \<open>The disk\<close>

text \<open>\<^verbatim>\<open>os.path.join(a, b)\<close> on POSIX paths.\<close>

definition path_join :: "string \<Rightarrow> string \<Rightarrow> string" where
  "path_join a b =
     (if b \<noteq> [] \<and> hd b = CHR ''/'' then b
      else if a = [] \<or> last a = CHR ''/'' then a @ b
      else a @ ''/'' @ b)"

text \<open>\<^verbatim>\<open>os.path.exists\<close>.\<close>

definition path_exists :: "disk_state \<Rightarrow> string \<Rightarrow> bool" where
  "path_exists d p = (p \<in> dirs d \<or> files d p \<noteq> None)"

text \<open>
  Modelled from the spec: \<^verbatim>\<open>unix.mkdir\<close> of \<^verbatim>\<open>seisflows.tools\<close>, which is not among the
  sources; by the spec \<^verbatim>\<open>save\<close> "creates the directory if absent".
\<close>

definition unix_mkdir :: "disk_state \<Rightarrow> string \<Rightarrow> disk_state" where
  "unix_mkdir d p = d\<lparr>dirs := insert p (dirs d)\<rparr>"

text \<open>
  \<^verbatim>\<open>open(fullfile, "w")\<close> for a file in directory \<open>dir\<close>: the directory must exist and
  the path of the file must not be a directory; the file is created or emptied.
\<close>

definition open_write :: "disk_state \<Rightarrow> string \<Rightarrow> string \<Rightarrow> pyerror + disk_state" where
  "open_write d dir fullfile =
     (if dir \<in> dirs d then
        (if fullfile \<in> dirs d then Inl IsADirectoryError
         else Inr (d\<lparr>files := (files d)(fullfile \<mapsto> Partial)\<rparr>))
      else if files d dir \<noteq> None then Inl NotADirectoryError
      else Inl FileNotFoundError)"

definition write_file :: "disk_state \<Rightarrow> string \<Rightarrow> content \<Rightarrow> disk_state" where
  "write_file d fullfile c = d\<lparr>files := (files d)(fullfile \<mapsto> c)\<rparr>"

text \<open>
  Opening for reading and decoding: a missing file raises \<^verbatim>\<open>FileNotFoundError\<close>. A file
  that is not a complete document of the expected kind makes the decoder raise;
  \<open>JSONDecodeError\<close> and \<open>UnpicklingError\<close> stand for whatever \<^verbatim>\<open>json.load\<close> and
  \<^verbatim>\<open>pickle.load\<close> raise then (for an empty pickle file that is \<^verbatim>\<open>EOFError\<close>).
\<close>

definition read_json :: "disk_state \<Rightarrow> string \<Rightarrow> pyerror + pyval" where
  "read_json d fullfile =
     (case files d fullfile of
        None \<Rightarrow> Inl FileNotFoundError
      | Some (JsonText n j) \<Rightarrow> Dict (json_load j)
      | Some _ \<Rightarrow> Inl JSONDecodeError)"

definition read_pickle :: "disk_state \<Rightarrow> string \<Rightarrow> pyerror + pyval" where
  "read_pickle d fullfile =
     (case files d fullfile of
        None \<Rightarrow> Inl FileNotFoundError
      | Some (PickleData k) \<Rightarrow> pickle_load k
      | Some _ \<Rightarrow> Inl UnpicklingError)"

subsection \<open>\<^verbatim>\<open>save\<close>\<close>

text \<open>
  The two loops of \<^verbatim>\<open>save\<close>. In each round the file is opened first, then the entry of
  \<^verbatim>\<open>sys.modules\<close> is read (\<^verbatim>\<open>KeyError\<close> when it is not registered) and serialized; an
  exception leaves the opened file behind.
\<close>

fun save_json :: "string \<Rightarrow> modules \<Rightarrow> string list \<Rightarrow> disk_state \<Rightarrow> pyerror option \<times> disk_state" where
  "save_json path mods [] d = (None, d)"
| "save_json path mods (name # rest) d =
     (let fullfile = path_join path (name @ ''.json'') in
      case open_write d path fullfile of
        Inl e \<Rightarrow> (Some e, d)
      | Inr d1 \<Rightarrow>
          (case mods name of
             None \<Rightarrow> (Some KeyError, d1)
           | Some v \<Rightarrow>
               (case json_dump v of
                  Inl e \<Rightarrow> (Some e, d1)
                | Inr j \<Rightarrow> save_json path mods rest (write_file d1 fullfile (JsonText 4 j)))))"

fun save_pickle :: "string \<Rightarrow> modules \<Rightarrow> string list \<Rightarrow> disk_state \<Rightarrow> pyerror option \<times> disk_state" where
  "save_pickle path mods [] d = (None, d)"
| "save_pickle path mods (name # rest) d =
     (let fullfile = path_join path (''seisflows_'' @ name @ ''.p'') in
      case open_write d path fullfile of
        Inl e \<Rightarrow> (Some e, d)
      | Inr d1 \<Rightarrow>
          (case mods (''seisflows_'' @ name) of
             None \<Rightarrow> (Some KeyError, d1)
           | Some v \<Rightarrow>
               (case pickle_dump v of
                  Inl e \<Rightarrow> (Some e, d1)
                | Inr k \<Rightarrow> save_pickle path mods rest (write_file d1 fullfile (PickleData k)))))"

definition save :: "string \<Rightarrow> world \<Rightarrow> pyerror option \<times> world" where
  "save path w =
     (let d0 = (if \<not> path_exists (disk w) path then unix_mkdir (disk w) path else disk w) in
      case save_json path (sys_modules w) [''seisflows_parameters'', ''seisflows_paths''] d0 of
        (Some e, d1) \<Rightarrow> (Some e, w\<lparr>disk := d1\<rparr>)
      | (None, d1) \<Rightarrow>
          (case save_pickle path (sys_modules w) NAMES d1 of
             (r, d2) \<Rightarrow> (r, w\<lparr>disk := d2\<rparr>)))"

subsection \<open>\<^verbatim>\<open>load\<close>\<close>

text \<open>
  The two loops of \<^verbatim>\<open>load\<close>; \<open>dir\<close> is \<^verbatim>\<open>os.path.abspath(path)\<close>. Each round reads one
  file and stores the result in \<^verbatim>\<open>sys.modules\<close> at once.
\<close>

fun load_json :: "disk_state \<Rightarrow> string \<Rightarrow> string list \<Rightarrow> modules \<Rightarrow> pyerror option \<times> modules" where
  "load_json d dir [] m = (None, m)"
| "load_json d dir (name # rest) m =
     (let fullfile = path_join dir (name @ ''.json'') in
      case read_json d fullfile of
        Inl e \<Rightarrow> (Some e, m)
      | Inr v \<Rightarrow> load_json d dir rest (m(name \<mapsto> v)))"

fun load_pickle :: "disk_state \<Rightarrow> string \<Rightarrow> string list \<Rightarrow> modules \<Rightarrow> pyerror option \<times> modules" where
  "load_pickle d dir [] m = (None, m)"
| "load_pickle d dir (name # rest) m =
     (let fullfile = path_join dir (''seisflows_'' @ name @ ''.p'') in
      case read_pickle d fullfile of
        Inl e \<Rightarrow> (Some e, m)
      | Inr v \<Rightarrow> load_pickle d dir rest (m(''seisflows_'' @ name \<mapsto> v)))"

text \<open>\<^verbatim>\<open>os.path.abspath\<close> belongs to the operating system and is a parameter.\<close>

definition load :: "(string \<Rightarrow> string) \<Rightarrow> string \<Rightarrow> world \<Rightarrow> pyerror option \<times> world" where
  "load abspath path w =
     (case load_json (disk w) (abspath path) [''seisflows_parameters'', ''seisflows_paths'']
             (sys_modules w) of
        (Some e, m1) \<Rightarrow> (Some e, w\<lparr>sys_modules := m1\<rparr>)
      | (None, m1) \<Rightarrow>
          (case load_pickle (disk w) (abspath path) NAMES m1 of
             (r, m2) \<Rightarrow> (r, w\<lparr>sys_modules := m2\<rparr>)))"

subsection \<open>The naming rule in the words of the specification\<close>

text \<open>
  The specification words the rule as "hyphen/underscore-delimited lowercase to
  concatenated capitalized words": the name is split at every hyphen and underscore, each
  word is capitalized (\<^verbatim>\<open>str.capitalize\<close>) and the words are concatenated. This is
  the reading \<open>resolve_classname\<close> is compared with.
\<close>

definition is_delimiter :: "char \<Rightarrow> bool" where
  "is_delimiter c = (c = CHR ''-'' \<or> c = CHR ''_'')"

fun split_words :: "string \<Rightarrow> string list" where
  "split_words [] = [[]]"
| "split_words (c # cs) =
     (if is_delimiter c then [] # split_words cs
      else (case split_words cs of [] \<Rightarrow> [[c]] | w # ws \<Rightarrow> (c # w) # ws))"

definition capitalize :: "string \<Rightarrow> string" where
  "capitalize w = (case w of [] \<Rightarrow> [] | c # cs \<Rightarrow> upper_char c # map lower_char cs)"

definition camel_case :: "string \<Rightarrow> string" where
  "camel_case s = concat (map capitalize (split_words s))"

text \<open>
  The rule the code follows, in words: the name is cut into its maximal runs of letters and,
  one by one, its other characters (\<open>tokens\<close>); every run of letters is capitalized, every
  underscore is dropped, every other character (a hyphen, a digit) stays where it is.
\<close>

definition is_letter :: "char \<Rightarrow> bool" where
  "is_letter c = (is_lower c \<or> is_upper c)"

definition starts_with_letter :: "string list \<Rightarrow> bool" where
  "starts_with_letter ts = (case ts of (c # w) # rest \<Rightarrow> is_letter c | _ \<Rightarrow> False)"

fun tokens :: "string \<Rightarrow> string list" where
  "tokens [] = []"
| "tokens (c # cs) =
     (if is_letter c \<and> starts_with_letter (tokens cs)
      then (c # hd (tokens cs)) # tl (tokens cs)
      else [c] # tokens cs)"

definition render_token :: "string \<Rightarrow> string" where
  "render_token t = (if t = ''_'' then [] else capitalize t)"

definition capitalized_runs :: "string \<Rightarrow> string" where
  "capitalized_runs s = concat (map render_token (tokens s))"

text \<open>
  The same for the rest of a name that follows a letter: a leading run of letters continues
  the word before it and is lowercased throughout.
\<close>

definition continued :: "string \<Rightarrow> string" where
  "continued s =
     (if starts_with_letter (tokens s)
      then map lower_char (hd (tokens s)) @ concat (map render_token (tl (tokens s)))
      else capitalized_runs s)"

subsection \<open>The checkpoint as a list of entries\<close>

text \<open>
  Vocabulary for the statements about \<^verbatim>\<open>save\<close> and \<^verbatim>\<open>load\<close>. Both run through the
  same eight entries in the same order: the two mappings, then the six roles. An entry is
  the key in \<^verbatim>\<open>sys.modules\<close>, the file, and whether the file is JSON. \<open>save_entries\<close>
  and \<open>load_entries\<close> are the two loops of each function written as one loop over such a
  list; they are proved equal to \<open>save\<close> and \<open>load\<close> below (\<open>save_as_entries\<close>,
  \<open>load_as_entries\<close>).
\<close>

definition checkpoint_entries :: "string \<Rightarrow> (string \<times> string \<times> bool) list" where
  "checkpoint_entries dir =
     map (\<lambda>n. (n, path_join dir (n @ ''.json''), True)) [''seisflows_parameters'', ''seisflows_paths'']
     @ map (\<lambda>n. (''seisflows_'' @ n, path_join dir (''seisflows_'' @ n @ ''.p''), False)) NAMES"

definition checkpoint_files :: "string \<Rightarrow> string list" where
  "checkpoint_files dir = map (\<lambda>e. fst (snd e)) (checkpoint_entries dir)"

fun read_entry :: "disk_state \<Rightarrow> string \<times> string \<times> bool \<Rightarrow> pyerror + pyval" where
  "read_entry d (key, fullfile, is_json) = (if is_json then read_json d fullfile else read_pickle d fullfile)"

fun load_entries :: "disk_state \<Rightarrow> (string \<times> string \<times> bool) list \<Rightarrow> modules \<Rightarrow> pyerror option \<times> modules" where
  "load_entries d [] m = (None, m)"
| "load_entries d (e # es) m =
     (case read_entry d e of
        Inl x \<Rightarrow> (Some x, m)
      | Inr v \<Rightarrow> load_entries d es (m(fst e \<mapsto> v)))"

fun dump_entry :: "modules \<Rightarrow> string \<times> string \<times> bool \<Rightarrow> pyerror + content" where
  "dump_entry mods (key, fullfile, is_json) =
     (case mods key of
        None \<Rightarrow> Inl KeyError
      | Some v \<Rightarrow>
          (if is_json then (case json_dump v of Inl e \<Rightarrow> Inl e | Inr j \<Rightarrow> Inr (JsonText 4 j))
           else (case pickle_dump v of Inl e \<Rightarrow> Inl e | Inr k \<Rightarrow> Inr (PickleData k))))"

fun save_entries ::
  "string \<Rightarrow> modules \<Rightarrow> (string \<times> string \<times> bool) list \<Rightarrow> disk_state \<Rightarrow> pyerror option \<times> disk_state" where
  "save_entries path mods [] d = (None, d)"
| "save_entries path mods (e # es) d =
     (case open_write d path (fst (snd e)) of
        Inl x \<Rightarrow> (Some x, d)
      | Inr d1 \<Rightarrow>
          (case dump_entry mods e of
             Inl x \<Rightarrow> (Some x, d1)
           | Inr c \<Rightarrow> save_entries path mods es (write_file d1 (fst (snd e)) c)))"

text \<open>Every object of a JSON document has its keys in ascending order.\<close>

fun sorted_keys :: "json \<Rightarrow> bool" where
  "sorted_keys (JArr js) = list_all sorted_keys js"
| "sorted_keys (JObj kjs) = (sorted (map fst kjs) \<and> list_all (\<lambda>kj. sorted_keys (snd kj)) kjs)"
| "sorted_keys _ = True"

subsection \<open>Example sessions\<close>

text \<open>
  A complete session on an empty disk; the same session with a workflow that keeps a bound
  method of the solver in its state; the same session with a solver that keeps a lambda in
  its state; the same session before a directory \<^verbatim>\<open>ckpt\<close> in which a directory has the
  name of the paths file; and a fresh process before a checkpoint directory in which the
  files of the last four roles are missing.
\<close>

definition example_session :: world where
  "example_session =
     \<lparr>sys_modules =
        [''seisflows_parameters'' \<mapsto> VDict [(''WORKFLOW'', VStr ''inversion''), (''NTASK'', VInt 2)],
         ''seisflows_paths'' \<mapsto> VDict [(''SCRATCH'', VStr ''scratch''), (''OUTPUT'', VStr ''output'')],
         ''seisflows_system'' \<mapsto> VInstance ''Workstation'' [],
         ''seisflows_preprocess'' \<mapsto> VInstance ''Default'' [],
         ''seisflows_solver'' \<mapsto> VInstance ''Specfem2D'' [(''taskid'', VInt 0)],
         ''seisflows_postprocess'' \<mapsto> VNone,
         ''seisflows_optimize'' \<mapsto> VInstance ''LBFGS'' [(''iter'', VInt 3)],
         ''seisflows_workflow'' \<mapsto> VInstance ''Inversion'' [(''iteration'', VInt 3)]],
      disk = \<lparr>dirs = {}, files = Map.empty\<rparr>\<rparr>"

definition bound_method_session :: world where
  "bound_method_session =
     example_session\<lparr>sys_modules := (sys_modules example_session)
       (''seisflows_workflow'' \<mapsto>
          VInstance ''Inversion''
            [(''iteration'', VInt 3),
             (''task'', VMethod (PyFunc ''evaluate'' 1) (VInstance ''Specfem2D'' [(''taskid'', VInt 0)]))])\<rparr>"

definition local_function_session :: world where
  "local_function_session =
     example_session\<lparr>sys_modules := (sys_modules example_session)
       (''seisflows_solver'' \<mapsto>
          VInstance ''Specfem2D''
            [(''taskid'', VInt 0), (''callback'', VLocalFunction (PyFunc ''<lambda>'' 2))])\<rparr>"

definition occupied_session :: world where
  "occupied_session =
     example_session\<lparr>disk := \<lparr>dirs = {''ckpt'', ''ckpt/seisflows_paths.json''}, files = Map.empty\<rparr>\<rparr>"

definition partial_checkpoint :: world where
  "partial_checkpoint =
     \<lparr>sys_modules = Map.empty,
      disk = \<lparr>dirs = {''/ckpt''},
              files = [''/ckpt/seisflows_parameters.json'' \<mapsto> JsonText 4 (JObj [(''NTASK'', JInt 2)]),
                       ''/ckpt/seisflows_paths.json'' \<mapsto> JsonText 4 (JObj []),
                       ''/ckpt/seisflows_system.p'' \<mapsto> PickleData (KInst ''Workstation'' []),
                       ''/ckpt/seisflows_preprocess.p'' \<mapsto> PickleData (KInst ''Default'' [])]\<rparr>\<rparr>"

section \<open>Properties\<close>

subsection \<open>Characters and the naming rule\<close>

lemma is_lower_cases:
  "is_lower c \<Longrightarrow> \<not> is_upper c \<and> c \<noteq> CHR ''_'' \<and> c \<noteq> CHR ''-'' \<and> upper_char c \<noteq> CHR ''_'' \<and> lower_char c = c"
  unfolding is_lower_def is_upper_def ascii_lowercase_def ascii_uppercase_def upper_char_def lower_char_def
  by (elim set_ConsD [elim_format] disjE; simp)


lemma is_upper_cases:
  "is_upper c \<Longrightarrow> \<not> is_lower c \<and> c \<noteq> CHR ''_'' \<and> lower_char c \<noteq> CHR ''_'' \<and> upper_char c = c"
  unfolding is_lower_def is_upper_def ascii_lowercase_def ascii_uppercase_def upper_char_def lower_char_def
  by (elim set_ConsD [elim_format] disjE; simp)

lemma split_words_nonempty: "split_words s \<noteq> []"
  by (induction s) (auto split: list.splits)

lemma hd_split_words_lower:
  "list_all (\<lambda>c. is_lower c \<or> c = CHR ''_'') s \<Longrightarrow> list_all is_lower (hd (split_words s))"
proof (induction s)
  case Nil
  then show ?case by simp
next
  case (Cons c s)
  then show ?case
    using split_words_nonempty [of s]
    by (cases "split_words s") (auto simp: is_delimiter_def dest: is_lower_cases)
qed

lemma map_lower_char_id: "list_all is_lower w \<Longrightarrow> map lower_char w = w"
  by (induction w) (auto dest: is_lower_cases)

lemma title_camel:
  assumes "list_all (\<lambda>c. is_lower c \<or> c = CHR ''_'') s"
  shows "replace_underscore (title_from False s) = camel_case s
       \<and> replace_underscore (title_from True s) =
           hd (split_words s) @ concat (map capitalize (tl (split_words s)))"
  using assms
proof (induction s)
  case Nil
  then show ?case by (simp add: replace_underscore_def camel_case_def capitalize_def)
next
  case (Cons c s)
  then have IH1: "replace_underscore (title_from False s) = camel_case s"
    and IH2: "replace_underscore (title_from True s) =
                hd (split_words s) @ concat (map capitalize (tl (split_words s)))"
    by simp_all
  obtain w ws where sw: "split_words s = w # ws"
    using split_words_nonempty [of s] by (cases "split_words s") auto
  show ?case
  proof (cases "c = CHR ''_''")
    case True
    have nl: "\<not> is_lower c"
      using True is_lower_cases [of c] by blast
    have nu: "\<not> is_upper c"
      using True by (simp add: is_upper_def ascii_uppercase_def)
    have t: "title_from p (c # s) = c # title_from False s" for p
      using nl nu by simp
    have sp: "split_words (c # s) = [] # split_words s"
      using True by (simp add: is_delimiter_def)
    have c0: "capitalize [] = []" by (simp add: capitalize_def)
    show ?thesis
      unfolding t sp using True IH1 c0
      by (simp add: replace_underscore_def camel_case_def is_delimiter_def)
  next
    case False
    with Cons.prems have lc: "is_lower c" by simp
    note lcs = is_lower_cases [OF lc]
    have nd: "\<not> is_delimiter c"
      using lcs by (simp add: is_delimiter_def)
    have "list_all is_lower (hd (split_words s))"
      using Cons.prems by (intro hd_split_words_lower) simp
    then have wl: "map lower_char w = w"
      using sw by (simp add: map_lower_char_id)
    have sp: "split_words (c # s) = (c # w) # ws"
      using nd sw by simp
    have tF: "title_from False (c # s) = upper_char c # title_from True s"
      using lc by simp
    have tT: "title_from True (c # s) = c # title_from True s"
      using lc by simp
    have cap: "capitalize (c # w) = upper_char c # w"
      using wl by (simp add: capitalize_def)
    have r2: "replace_underscore (title_from True s) = w @ concat (map capitalize ws)"
      using IH2 sw by simp
    have "replace_underscore (title_from False (c # s)) = camel_case (c # s)"
      unfolding tF sp camel_case_def using lcs cap r2
      by (simp add: replace_underscore_def)
    moreover have "replace_underscore (title_from True (c # s)) =
        hd (split_words (c # s)) @ concat (map capitalize (tl (split_words (c # s))))"
      unfolding tT sp using lcs r2 by (simp add: replace_underscore_def)
    ultimately show ?thesis by simp
  qed
qed

lemma lower_not_isupper:
  "list_all (\<lambda>c. is_lower c \<or> c = CHR ''_'') s \<Longrightarrow> \<not> isupper s"
proof -
  assume a: "list_all (\<lambda>c. is_lower c \<or> c = CHR ''_'') s"
  have "\<not> is_upper c" if "c \<in> set s" for c
  proof (cases "is_lower c")
    case True
    then show ?thesis using is_lower_cases by blast
  next
    case False
    with a that have "c = CHR ''_''" by (auto simp: list_all_iff)
    then show ?thesis by (simp add: is_upper_def ascii_uppercase_def)
  qed
  then show ?thesis by (auto simp: isupper_def list_ex_iff)
qed

lemma upper_char_not_lower: "\<not> is_lower c \<Longrightarrow> upper_char c = c"
proof -
  assume "\<not> is_lower c"
  then have "c \<notin> set ascii_lowercase" by (simp add: is_lower_def)
  then have "map_of (zip ascii_lowercase ascii_uppercase) c = None"
    by (simp add: map_of_zip_is_None ascii_lowercase_def ascii_uppercase_def)
  then show ?thesis by (simp add: upper_char_def)
qed

lemma isupper_upper_id: "isupper s \<Longrightarrow> upper s = s"
  by (auto simp: isupper_def upper_def list_ex_iff map_idI upper_char_not_lower)

lemma letter_facts:
  assumes "is_letter c"
  shows "c \<noteq> CHR ''_''" "upper_char c \<noteq> CHR ''_''" "lower_char c \<noteq> CHR ''_''"
    "title_from False (c # s) = upper_char c # title_from True s"
    "title_from True (c # s) = lower_char c # title_from True s"
  using assms is_lower_cases [of c] is_upper_cases [of c]
  by (auto simp: is_letter_def)

lemma nonletter_facts:
  assumes "\<not> is_letter c"
  shows "title_from p (c # s) = c # title_from False s" "upper_char c = c"
  using assms upper_char_not_lower [of c] by (auto simp: is_letter_def)

lemma starts_with_letter_Cons:
  "starts_with_letter ts \<Longrightarrow> \<exists>c w rest. ts = (c # w) # rest \<and> is_letter c"
  by (auto simp: starts_with_letter_def split: list.splits)

lemma title_runs:
  "replace_underscore (title_from False s) = capitalized_runs s
   \<and> replace_underscore (title_from True s) = continued s"
proof (induction s)
  case Nil
  then show ?case
    by (simp add: replace_underscore_def capitalized_runs_def continued_def starts_with_letter_def)
next
  case (Cons c s)
  then have IH1: "replace_underscore (title_from False s) = capitalized_runs s"
    and IH2: "replace_underscore (title_from True s) = continued s"
    by simp_all
  show ?case
  proof (cases "is_letter c")
    case True
    note lf = letter_facts [OF True]
    have ne: "[c] \<noteq> ''_''" "c # t \<noteq> ''_''" for t using lf(1) by auto
    show ?thesis
    proof (cases "starts_with_letter (tokens s)")
      case sl: True
      then obtain d w rest where t: "tokens s = (d # w) # rest" "is_letter d"
        using starts_with_letter_Cons by blast
      have tk: "tokens (c # s) = (c # d # w) # rest"
        using True sl t by simp
      have co: "continued s = map lower_char (d # w) @ concat (map render_token rest)"
        using sl t by (simp add: continued_def)
      have a: "replace_underscore (title_from False (c # s)) = capitalized_runs (c # s)"
        unfolding lf(4) capitalized_runs_def tk
        using lf(2) IH2 co
        by (simp add: replace_underscore_def render_token_def capitalize_def)
      have b: "replace_underscore (title_from True (c # s)) = continued (c # s)"
        unfolding lf(5) using lf(3) IH2 co True tk
        by (simp add: replace_underscore_def continued_def starts_with_letter_def)
      from a b show ?thesis by simp
    next
      case nsl: False
      have tk: "tokens (c # s) = [c] # tokens s"
        using nsl by simp
      have co: "continued s = capitalized_runs s"
        using nsl by (simp add: continued_def)
      have a: "replace_underscore (title_from False (c # s)) = capitalized_runs (c # s)"
        unfolding lf(4) using lf(1,2) IH2 co tk
        by (simp add: replace_underscore_def capitalized_runs_def render_token_def capitalize_def)
      have b: "replace_underscore (title_from True (c # s)) = continued (c # s)"
        unfolding lf(5) using lf(3) IH2 co True tk
        by (simp add: replace_underscore_def continued_def starts_with_letter_def capitalized_runs_def)
      from a b show ?thesis by simp
    qed
  next
    case False
    note nf = nonletter_facts [OF False]
    have tk: "tokens (c # s) = [c] # tokens s"
      using False by simp
    have nsl: "\<not> starts_with_letter (tokens (c # s))"
      using False tk by (simp add: starts_with_letter_def)
    have rt: "render_token [c] = (if c = CHR ''_'' then [] else [c])"
      using nf(2) by (simp add: render_token_def capitalize_def)
    have a: "replace_underscore (title_from p (c # s)) = capitalized_runs (c # s)" for p
      unfolding nf(1) using IH1 rt tk
      by (simp add: replace_underscore_def capitalized_runs_def)
    have b: "continued (c # s) = capitalized_runs (c # s)"
      using nsl by (simp add: continued_def)
    from a b show ?thesis by simp
  qed
qed

text \<open>
  Claim C6 (amended). For a valid role and a given module name the resolver looks up, in the
  imported module, the class name computed by \<open>resolve_classname\<close>. Without an override,
  the class name of a module name for which \<^verbatim>\<open>isupper\<close> holds is the module name itself, and
  the class name of any other module name is \<open>capitalized_runs\<close>: every maximal run of
  letters capitalized, every underscore dropped, every other character kept (so a hyphen
  stays, and a letter after a hyphen or a digit is a capital). For a module name made of
  lowercase letters and underscores this is the concatenation of the capitalized words. An
  override class name is used as it is.
\<close>

theorem classname_rule:
  "(name \<in> set NAMES \<longrightarrow>
      custom_import pkg mods (Some name) (Some m) cn = import_class pkg name m (resolve_classname m cn))
   \<and> resolve_classname m None = (if isupper m then m else capitalized_runs m)
   \<and> (list_all (\<lambda>c. is_lower c \<or> c = CHR ''_'') m \<longrightarrow> resolve_classname m None = camel_case m)
   \<and> (isupper m \<longrightarrow> resolve_classname m None = m)
   \<and> resolve_classname m (Some c) = c"
proof (intro conjI impI)
  assume "name \<in> set NAMES"
  then show "custom_import pkg mods (Some name) (Some m) cn =
      import_class pkg name m (resolve_classname m cn)"
    by (simp add: custom_import_def import_value_def)
next
  show "resolve_classname m None = (if isupper m then m else capitalized_runs m)"
    using title_runs [of m] by (simp add: resolve_classname_def title_def isupper_upper_id)
next
  assume a: "list_all (\<lambda>c. is_lower c \<or> c = CHR ''_'') m"
  then show "resolve_classname m None = camel_case m"
    using lower_not_isupper [OF a] title_camel [OF a]
    by (simp add: resolve_classname_def title_def)
next
  assume "isupper m"
  then show "resolve_classname m None = m"
    by (simp add: resolve_classname_def isupper_upper_id)
next
  show "resolve_classname m (Some c) = c"
    by (simp add: resolve_classname_def)
qed

text \<open>
  Witness for C6: the module \<^verbatim>\<open>my_solver\<close> of role \<^verbatim>\<open>solver\<close> resolves to the class
  \<^verbatim>\<open>MySolver\<close>, \<^verbatim>\<open>LBFGS\<close> to itself, \<^verbatim>\<open>my-solver\<close> to \<^verbatim>\<open>My-Solver\<close> and
  \<^verbatim>\<open>specfem2d\<close> to \<^verbatim>\<open>Specfem2D\<close>.
\<close>

theorem classname_rule_witness:
  "custom_import
      \<lparr>module_exists = (\<lambda>n. n = ''seisflows.solver.my_solver''),
       import_module = (\<lambda>n. Inr [''MySolver'' \<mapsto> (7::nat)])\<rparr>
      Map.empty (Some ''solver'') (Some ''my_solver'') None = Return 7
   \<and> resolve_classname ''my_solver'' None = ''MySolver''
   \<and> resolve_classname ''LBFGS'' None = ''LBFGS''
   \<and> resolve_classname ''my-solver'' None = ''My-Solver''
   \<and> resolve_classname ''specfem2d'' None = ''Specfem2D''"
proof -
  let ?pkg = "\<lparr>module_exists = (\<lambda>n. n = ''seisflows.solver.my_solver''),
       import_module = (\<lambda>n. Inr [''MySolver'' \<mapsto> (7::nat)])\<rparr>"
  have n: "''solver'' \<in> set NAMES"
    by (simp add: NAMES_def)
  have l: "list_all (\<lambda>c. is_lower c \<or> c = CHR ''_'') ''my_solver''"
    by (simp add: is_lower_def ascii_lowercase_def)
  have u: "isupper ''LBFGS''"
    by (simp add: isupper_def is_upper_def is_lower_def ascii_lowercase_def ascii_uppercase_def)
  have nu: "\<not> isupper ''my-solver''" "\<not> isupper ''specfem2d''"
    by (simp_all add: isupper_def is_upper_def is_lower_def ascii_lowercase_def ascii_uppercase_def)
  have c: "camel_case ''my_solver'' = ''MySolver''"
    by (simp add: camel_case_def capitalize_def is_delimiter_def upper_char_def lower_char_def
        ascii_lowercase_def ascii_uppercase_def)
  have k1: "capitalized_runs ''my-solver'' = ''My-Solver''"
    by code_simp
  have k2: "capitalized_runs ''specfem2d'' = ''Specfem2D''"
    by code_simp
  have q1: "resolve_classname ''my_solver'' None = camel_case ''my_solver''"
    using classname_rule [of "''solver''" ?pkg Map.empty "''my_solver''" None] l by blast
  have q2: "resolve_classname ''LBFGS'' None = ''LBFGS''"
    using classname_rule [of "''solver''" ?pkg Map.empty "''LBFGS''" None] u by blast
  have q3: "custom_import ?pkg Map.empty (Some ''solver'') (Some ''my_solver'') None =
      import_class ?pkg ''solver'' ''my_solver'' (resolve_classname ''my_solver'' None)"
    using classname_rule [of "''solver''" ?pkg Map.empty "''my_solver''" None] n by blast
  have q4: "resolve_classname ''my-solver'' None =
      (if isupper ''my-solver'' then ''my-solver'' else capitalized_runs ''my-solver'')"
    using classname_rule [of "''solver''" ?pkg Map.empty "''my-solver''" None] by blast
  have q5: "resolve_classname ''specfem2d'' None =
      (if isupper ''specfem2d'' then ''specfem2d'' else capitalized_runs ''specfem2d'')"
    using classname_rule [of "''solver''" ?pkg Map.empty "''specfem2d''" None] by blast
  have r1: "resolve_classname ''my_solver'' None = ''MySolver''"
    unfolding q1 c ..
  have r4: "resolve_classname ''my-solver'' None = ''My-Solver''"
    unfolding q4 k1 using nu(1) by simp
  have r5: "resolve_classname ''specfem2d'' None = ''Specfem2D''"
    unfolding q5 k2 using nu(2) by simp
  have r3: "custom_import ?pkg Map.empty (Some ''solver'') (Some ''my_solver'') None = Return 7"
    unfolding q3 r1 by (simp add: import_class_def)
  show ?thesis
    using r1 q2 r3 r4 r5 by simp
qed

text \<open>
  Counterexample for C6 as stated. On the hyphen-delimited name \<^verbatim>\<open>my-solver\<close> the code
  yields \<^verbatim>\<open>My-Solver\<close>, where the concatenated capitalized words are \<^verbatim>\<open>MySolver\<close>; on
  the lowercase name \<^verbatim>\<open>specfem2d\<close> it yields \<^verbatim>\<open>Specfem2D\<close>, where the capitalized word
  is \<^verbatim>\<open>Specfem2d\<close>.
\<close>

theorem camel_case_counterexample:
  "resolve_classname ''my-solver'' None = ''My-Solver''
   \<and> camel_case ''my-solver'' = ''MySolver''
   \<and> resolve_classname ''specfem2d'' None = ''Specfem2D''
   \<and> camel_case ''specfem2d'' = ''Specfem2d''"
  by (simp add: resolve_classname_def isupper_def is_upper_def is_lower_def title_def
      ascii_lowercase_def ascii_uppercase_def upper_char_def lower_char_def
      replace_underscore_def camel_case_def capitalize_def is_delimiter_def)

subsection \<open>The resolver\<close>

text \<open>
  Claim C7. When the role is omitted, or is not one of the six names of \<open>NAMES\<close>,
  \<^verbatim>\<open>custom_import\<close> ends the process with \<^verbatim>\<open>sys.exit(-1)\<close>, whatever the other
  arguments, the package and the session: nothing is returned.
\<close>

theorem custom_import_invalid_role:
  assumes "name = None \<or> (\<exists>n. name = Some n \<and> n \<notin> set NAMES)"
  shows "custom_import pkg mods name module classname = SysExit (- 1)"
  using assms by (auto simp: custom_import_def)

text \<open>Witness for C7: the role \<^verbatim>\<open>mesher\<close>, and the omitted role.\<close>

theorem custom_import_invalid_role_witness:
  "custom_import \<lparr>module_exists = (\<lambda>n. True), import_module = (\<lambda>n. Inr [''Mesher'' \<mapsto> (0::nat)])\<rparr>
      Map.empty (Some ''mesher'') (Some ''mesher'') None = SysExit (- 1)
   \<and> custom_import \<lparr>module_exists = (\<lambda>n. True), import_module = (\<lambda>n. Inr [''Mesher'' \<mapsto> (0::nat)])\<rparr>
      Map.empty None (Some ''mesher'') None = SysExit (- 1)"
proof (rule conjI)
  show "custom_import \<lparr>module_exists = (\<lambda>n. True), import_module = (\<lambda>n. Inr [''Mesher'' \<mapsto> (0::nat)])\<rparr>
      Map.empty (Some ''mesher'') (Some ''mesher'') None = SysExit (- 1)"
    by (rule custom_import_invalid_role) (simp add: NAMES_def)
  show "custom_import \<lparr>module_exists = (\<lambda>n. True), import_module = (\<lambda>n. Inr [''Mesher'' \<mapsto> (0::nat)])\<rparr>
      Map.empty None (Some ''mesher'') None = SysExit (- 1)"
    by (rule custom_import_invalid_role) simp
qed

text \<open>
  Claim C5. For a valid role and no module argument, \<^verbatim>\<open>custom_import\<close> returns the
  sentinel \<^verbatim>\<open>Null\<close> when the parameters hold no module name for the role: the key
  (the role in upper case) is absent, or present with the value \<^verbatim>\<open>None\<close>; the same holds
  when no parameters are registered at all. It neither raises nor exits.
\<close>

theorem custom_import_unconfigured:
  assumes "name \<in> set NAMES"
    and "mods ''seisflows_parameters'' = None
         \<or> (\<exists>par. mods ''seisflows_parameters'' = Some (VDict par)
              \<and> (map_of par (upper name) = None \<or> map_of par (upper name) = Some VNone))"
  shows "custom_import pkg mods (Some name) None classname = ReturnNull"
  using assms by (auto simp: custom_import_def configured_module_def)

text \<open>
  Witness for C5: \<^verbatim>\<open>SOLVER\<close> is present with \<^verbatim>\<open>None\<close>, \<^verbatim>\<open>OPTIMIZE\<close> is absent; the
  configured role \<^verbatim>\<open>system\<close> resolves to a class.
\<close>

theorem custom_import_unconfigured_witness:
  "custom_import \<lparr>module_exists = (\<lambda>n. True), import_module = (\<lambda>n. Inr [''Base'' \<mapsto> (0::nat)])\<rparr>
      [''seisflows_parameters'' \<mapsto> VDict [(''SOLVER'', VNone), (''SYSTEM'', VStr ''base'')]]
      (Some ''solver'') None None = ReturnNull
   \<and> custom_import \<lparr>module_exists = (\<lambda>n. True), import_module = (\<lambda>n. Inr [''Base'' \<mapsto> (0::nat)])\<rparr>
      [''seisflows_parameters'' \<mapsto> VDict [(''SOLVER'', VNone), (''SYSTEM'', VStr ''base'')]]
      (Some ''optimize'') None None = ReturnNull
   \<and> custom_import \<lparr>module_exists = (\<lambda>n. True), import_module = (\<lambda>n. Inr [''Base'' \<mapsto> (0::nat)])\<rparr>
      [''seisflows_parameters'' \<mapsto> VDict [(''SOLVER'', VNone), (''SYSTEM'', VStr ''base'')]]
      (Some ''system'') None None = Return 0"
proof -
  let ?mods = "[''seisflows_parameters'' \<mapsto> VDict [(''SOLVER'', VNone), (''SYSTEM'', VStr ''base'')]]"
  have u1: "upper ''solver'' = ''SOLVER''" and u2: "upper ''optimize'' = ''OPTIMIZE''"
    and u3: "upper ''system'' = ''SYSTEM''"
    by (simp_all add: upper_def upper_char_def ascii_lowercase_def ascii_uppercase_def)
  have n1: "''solver'' \<in> set NAMES" and n2: "''optimize'' \<in> set NAMES" and n3: "''system'' \<in> set NAMES"
    by (simp_all add: NAMES_def)
  have a: "custom_import \<lparr>module_exists = (\<lambda>n. True), import_module = (\<lambda>n. Inr [''Base'' \<mapsto> (0::nat)])\<rparr>
      ?mods (Some ''solver'') None None = ReturnNull"
    by (rule custom_import_unconfigured [OF n1]) (simp add: u1)
  have b: "custom_import \<lparr>module_exists = (\<lambda>n. True), import_module = (\<lambda>n. Inr [''Base'' \<mapsto> (0::nat)])\<rparr>
      ?mods (Some ''optimize'') None None = ReturnNull"
    by (rule custom_import_unconfigured [OF n2]) (simp add: u2)
  have c: "custom_import \<lparr>module_exists = (\<lambda>n. True), import_module = (\<lambda>n. Inr [''Base'' \<mapsto> (0::nat)])\<rparr>
      ?mods (Some ''system'') None None = Return 0"
    using n3 u3
    by (simp add: custom_import_def configured_module_def import_value_def import_class_def
        resolve_classname_def isupper_def is_upper_def is_lower_def title_def
        ascii_lowercase_def ascii_uppercase_def upper_char_def lower_char_def replace_underscore_def)
  from a b c show ?thesis by simp
qed

subsection \<open>\<^verbatim>\<open>flush\<close>\<close>

lemma flush_loop_result:
  "flush_loop names m =
     (None, \<lambda>k. if k \<in> (\<lambda>n. ''seisflows_'' @ n) ` set names then None else m k)"
proof (induction names arbitrary: m)
  case Nil
  then show ?case by simp
next
  case (Cons name rest)
  show ?case
  proof (cases "m (''seisflows_'' @ name) = None")
    case True
    then show ?thesis by (auto simp: Cons.IH Let_def)
  next
    case False
    then show ?thesis by (auto simp: Cons.IH Let_def del_item_def)
  qed
qed

lemma flush_result:
  "flush w = (None, w\<lparr>sys_modules :=
      (\<lambda>k. if k \<in> (\<lambda>n. ''seisflows_'' @ n) ` set NAMES then None else sys_modules w k)\<rparr>)"
  by (simp add: flush_def flush_loop_result)

text \<open>
  Claim C9. \<^verbatim>\<open>flush\<close> returns without an exception, leaves the disk exactly as it was,
  and afterwards none of the six roles has an entry in \<^verbatim>\<open>sys.modules\<close>.
\<close>

theorem flush_removes_roles:
  "fst (flush w) = None
   \<and> disk (snd (flush w)) = disk w
   \<and> list_all (\<lambda>name. sys_modules (snd (flush w)) (''seisflows_'' @ name) = None) NAMES"
  by (simp add: flush_result list_all_iff)

text \<open>
  Claim C10. \<^verbatim>\<open>flush\<close> leaves the entries \<^verbatim>\<open>seisflows_parameters\<close> and
  \<^verbatim>\<open>seisflows_paths\<close>, and every other entry that is not one of the six role entries, as
  they were; it never raises, it is idempotent, and on a process in which no session was
  assembled it changes nothing.
\<close>

theorem flush_keeps_configuration:
  "sys_modules (snd (flush w)) ''seisflows_parameters'' = sys_modules w ''seisflows_parameters''
   \<and> sys_modules (snd (flush w)) ''seisflows_paths'' = sys_modules w ''seisflows_paths''
   \<and> (k \<notin> (\<lambda>n. ''seisflows_'' @ n) ` set NAMES \<longrightarrow> sys_modules (snd (flush w)) k = sys_modules w k)
   \<and> fst (flush w) = None
   \<and> flush (snd (flush w)) = flush w
   \<and> flush \<lparr>sys_modules = Map.empty, disk = d\<rparr> = (None, \<lparr>sys_modules = Map.empty, disk = d\<rparr>)"
proof -
  have a: "''seisflows_parameters'' \<notin> (\<lambda>n. ''seisflows_'' @ n) ` set NAMES"
    and b: "''seisflows_paths'' \<notin> (\<lambda>n. ''seisflows_'' @ n) ` set NAMES"
    by (auto simp: NAMES_def)
  have c: "flush (snd (flush w)) = flush w"
    by (simp add: flush_result) (rule arg_cong [where f = "\<lambda>m. w\<lparr>sys_modules := m\<rparr>"], auto)
  have e: "flush \<lparr>sys_modules = Map.empty, disk = d\<rparr> = (None, \<lparr>sys_modules = Map.empty, disk = d\<rparr>)"
    by (simp add: flush_result fun_eq_iff)
  show ?thesis
    using a b c e by (simp add: flush_result)
qed

text \<open>Witness for C10: a session with parameters, a solver and a foreign module.\<close>

theorem flush_keeps_configuration_witness:
  "sys_modules (snd (flush \<lparr>sys_modules = [''seisflows_parameters'' \<mapsto> VDict [(''NTASK'', VInt 2)],
        ''seisflows_solver'' \<mapsto> VInstance ''Specfem2D'' [], ''other'' \<mapsto> VNone],
      disk = \<lparr>dirs = {}, files = Map.empty\<rparr>\<rparr>)) ''other'' = Some VNone
   \<and> sys_modules (snd (flush \<lparr>sys_modules = [''seisflows_parameters'' \<mapsto> VDict [(''NTASK'', VInt 2)],
        ''seisflows_solver'' \<mapsto> VInstance ''Specfem2D'' [], ''other'' \<mapsto> VNone],
      disk = \<lparr>dirs = {}, files = Map.empty\<rparr>\<rparr>)) ''seisflows_parameters'' = Some (VDict [(''NTASK'', VInt 2)])
   \<and> sys_modules (snd (flush \<lparr>sys_modules = [''seisflows_parameters'' \<mapsto> VDict [(''NTASK'', VInt 2)],
        ''seisflows_solver'' \<mapsto> VInstance ''Specfem2D'' [], ''other'' \<mapsto> VNone],
      disk = \<lparr>dirs = {}, files = Map.empty\<rparr>\<rparr>)) ''seisflows_solver'' = None"
proof -
  have h: "''other'' \<notin> (\<lambda>n. ''seisflows_'' @ n) ` set NAMES"
    by (auto simp: NAMES_def)
  show ?thesis
    using h flush_keeps_configuration [of "\<lparr>sys_modules = [''seisflows_parameters'' \<mapsto> VDict [(''NTASK'', VInt 2)],
        ''seisflows_solver'' \<mapsto> VInstance ''Specfem2D'' [], ''other'' \<mapsto> VNone],
      disk = \<lparr>dirs = {}, files = Map.empty\<rparr>\<rparr>" "''other''"]
    by (simp add: flush_def NAMES_def del_item_def)
qed

subsection \<open>The pickle adapter\<close>

lemma pickle_method_raises: "pickle_method f self = Inl AttributeError"
  by (simp add: pickle_method_def method_getattr_def function_getattr_def)

text \<open>
  Claim C3 (the code departs from it). The adapter is to encode a bound method as
  (function name, object, class). \<^verbatim>\<open>_pickle_method\<close> reads \<^verbatim>\<open>method.im_func\<close>, an
  attribute that Python 3 method objects do not have: on the method \<^verbatim>\<open>main\<close> of an
  \<^verbatim>\<open>Inversion\<close> instance it raises \<^verbatim>\<open>AttributeError\<close> and encodes nothing (and so on
  every bound method, \<open>pickle_method_raises\<close>).
\<close>

theorem pickle_method_fails_on_bound_method:
  "pickle_method (PyFunc ''main'' 0) (VInstance ''Inversion'' [(''iteration'', VInt 3)]) = Inl AttributeError"
  by (simp add: pickle_method_def method_getattr_def function_getattr_def)

text \<open>
  The decoding half does what it is meant to do: \<^verbatim>\<open>_unpickle_method\<close> takes the function
  from the first class of the resolution order that defines the name and binds it to the
  object given.
\<close>

lemma mro_lookup_first:
  assumes "classes = pre @ c # post"
    and "list_all (\<lambda>x. map_of (cls_dict x) func_name = None) pre"
    and "map_of (cls_dict c) func_name = Some func"
  shows "mro_lookup func_name classes = Some (func, c)"
  using assms by (induction pre arbitrary: classes) auto

lemma mro_lookup_None:
  "mro_lookup func_name classes = None \<longleftrightarrow> list_all (\<lambda>x. map_of (cls_dict x) func_name = None) classes"
  by (induction classes) (auto split: option.splits)

lemma unpickle_method_rebinds:
  assumes "mro cls = pre @ c # post"
    and "list_all (\<lambda>x. map_of (cls_dict x) func_name = None) pre"
    and "map_of (cls_dict c) func_name = Some func"
    and "obj \<noteq> VNone"
  shows "unpickle_method func_name obj cls = Inr (VMethod func obj)"
  using mro_lookup_first [OF assms(1-3)] assms(4)
  by (simp add: unpickle_method_def function_get_def)

text \<open>
  Claim C4. When no class of the resolution order has the function name in its dictionary,
  \<^verbatim>\<open>_unpickle_method\<close> raises (the unassigned local \<^verbatim>\<open>func\<close>: \<^verbatim>\<open>UnboundLocalError\<close>)
  and returns no callable; loading a pickle entry that calls it fails as well.
\<close>

theorem unpickle_method_missing_name:
  assumes "\<forall>c \<in> set (mro cls). map_of (cls_dict c) func_name = None"
  shows "unpickle_method func_name obj cls = Inl UnboundLocalError
       \<and> (\<exists>e. pickle_load (KReduce func_name k cls) = Inl e)"
proof -
  have "mro_lookup func_name (mro cls) = None"
    using assms by (simp add: mro_lookup_None list_all_iff)
  then have u: "unpickle_method func_name x cls = Inl UnboundLocalError" for x
    by (simp add: unpickle_method_def)
  then show ?thesis by (cases "pickle_load k") auto
qed

text \<open>
  Witness for C4: \<^verbatim>\<open>run\<close> is defined nowhere in the resolution order of \<^verbatim>\<open>Inversion\<close>;
  \<^verbatim>\<open>setup\<close>, defined by the base class, is found and bound.
\<close>

theorem unpickle_method_missing_name_witness:
  "unpickle_method ''run'' (VInstance ''Inversion'' [])
      (PyType (PyClass ''Inversion'' [(''main'', PyFunc ''main'' 1)])
              [PyClass ''Base'' [(''setup'', PyFunc ''setup'' 2)], PyClass ''object'' []])
     = Inl UnboundLocalError
   \<and> unpickle_method ''setup'' (VInstance ''Inversion'' [])
      (PyType (PyClass ''Inversion'' [(''main'', PyFunc ''main'' 1)])
              [PyClass ''Base'' [(''setup'', PyFunc ''setup'' 2)], PyClass ''object'' []])
     = Inr (VMethod (PyFunc ''setup'' 2) (VInstance ''Inversion'' []))"
proof -
  let ?cls = "PyType (PyClass ''Inversion'' [(''main'', PyFunc ''main'' 1)])
              [PyClass ''Base'' [(''setup'', PyFunc ''setup'' 2)], PyClass ''object'' []]"
  have h: "\<forall>c \<in> set (mro ?cls). map_of (cls_dict c) ''run'' = None"
    by (simp add: mro_def)
  have "unpickle_method ''run'' (VInstance ''Inversion'' []) ?cls = Inl UnboundLocalError"
    using unpickle_method_missing_name [OF h] by blast
  moreover have "unpickle_method ''setup'' (VInstance ''Inversion'' []) ?cls
      = Inr (VMethod (PyFunc ''setup'' 2) (VInstance ''Inversion'' []))"
    by (simp add: unpickle_method_def mro_def function_get_def)
  ultimately show ?thesis by simp
qed

subsection \<open>\<^verbatim>\<open>load\<close>\<close>

lemma load_json_entries:
  "load_json d dir names m = load_entries d (map (\<lambda>n. (n, path_join dir (n @ ''.json''), True)) names) m"
  by (induction names arbitrary: m) (auto simp: Let_def split: sum.splits)

lemma load_pickle_entries:
  "load_pickle d dir names m =
     load_entries d (map (\<lambda>n. (''seisflows_'' @ n, path_join dir (''seisflows_'' @ n @ ''.p''), False)) names) m"
  by (induction names arbitrary: m) (auto simp: Let_def split: sum.splits)

lemma load_entries_append:
  "load_entries d (xs @ ys) m =
     (case load_entries d xs m of (Some e, m1) \<Rightarrow> (Some e, m1) | (None, m1) \<Rightarrow> load_entries d ys m1)"
  by (induction xs arbitrary: m) (auto split: sum.splits)

lemma load_as_entries:
  "load abspath path w =
     (case load_entries (disk w) (checkpoint_entries (abspath path)) (sys_modules w) of
        (r, m) \<Rightarrow> (r, w\<lparr>sys_modules := m\<rparr>))"
  unfolding load_def checkpoint_entries_def load_entries_append load_json_entries load_pickle_entries
  by (auto split: prod.splits option.splits)

lemma load_entries_stop:
  assumes "list_all (\<lambda>e. \<exists>v. read_entry d e = Inr v) pre"
    and "read_entry d bad = Inl err"
    and "distinct (map fst pre)"
  shows "\<exists>m'. load_entries d (pre @ bad # post) m = (Some err, m')
     \<and> (\<forall>e \<in> set pre. Inr (the (m' (fst e))) = read_entry d e \<and> m' (fst e) \<noteq> None)
     \<and> (\<forall>k. k \<notin> fst ` set pre \<longrightarrow> m' k = m k)"
  using assms
proof (induction pre arbitrary: m)
  case Nil
  then show ?case by simp
next
  case (Cons e pre)
  then obtain v where v: "read_entry d e = Inr v" by auto
  from Cons.prems have p: "list_all (\<lambda>e. \<exists>v. read_entry d e = Inr v) pre" "distinct (map fst pre)"
    and ne: "fst e \<notin> fst ` set pre"
    by auto
  from Cons.IH [OF p(1) Cons.prems(2) p(2), of "m(fst e \<mapsto> v)"]
  obtain m' where m': "load_entries d (pre @ bad # post) (m(fst e \<mapsto> v)) = (Some err, m')"
    "\<forall>x \<in> set pre. Inr (the (m' (fst x))) = read_entry d x \<and> m' (fst x) \<noteq> None"
    "\<forall>k. k \<notin> fst ` set pre \<longrightarrow> m' k = (m(fst e \<mapsto> v)) k"
    by blast
  have "load_entries d ((e # pre) @ bad # post) m = (Some err, m')"
    using v m'(1) by simp
  moreover have "m' (fst e) = Some v"
    using m'(3) ne by simp
  ultimately show ?case
    using m'(2,3) v by auto
qed

lemma load_entries_ok_iff:
  "fst (load_entries d es m) = None \<longleftrightarrow> list_all (\<lambda>e. \<exists>v. read_entry d e = Inr v) es"
  by (induction es arbitrary: m) (auto split: sum.splits)

lemma checkpoint_keys_distinct: "distinct (map fst (checkpoint_entries dir))"
  by (simp add: checkpoint_entries_def NAMES_def)

lemma load_entries_ok:
  assumes "list_all (\<lambda>e. \<exists>v. read_entry d e = Inr v) es"
    and "distinct (map fst es)"
  shows "\<exists>m'. load_entries d es m = (None, m')
     \<and> (\<forall>e \<in> set es. Inr (the (m' (fst e))) = read_entry d e \<and> m' (fst e) \<noteq> None)
     \<and> (\<forall>k. k \<notin> fst ` set es \<longrightarrow> m' k = m k)"
  using assms
proof (induction es arbitrary: m)
  case Nil
  then show ?case by simp
next
  case (Cons e es)
  then obtain v where v: "read_entry d e = Inr v" by auto
  from Cons.prems have p: "list_all (\<lambda>e. \<exists>v. read_entry d e = Inr v) es" "distinct (map fst es)"
    and ne: "fst e \<notin> fst ` set es"
    by auto
  from Cons.IH [OF p, of "m(fst e \<mapsto> v)"]
  obtain m' where m': "load_entries d es (m(fst e \<mapsto> v)) = (None, m')"
    "\<forall>x \<in> set es. Inr (the (m' (fst x))) = read_entry d x \<and> m' (fst x) \<noteq> None"
    "\<forall>k. k \<notin> fst ` set es \<longrightarrow> m' k = (m(fst e \<mapsto> v)) k"
    by blast
  have "load_entries d (e # es) m = (None, m')"
    using v m'(1) by simp
  moreover have "m' (fst e) = Some v"
    using m'(3) ne by simp
  ultimately show ?case
    using m'(2,3) v by auto
qed

text \<open>
  Claim C2 (amended). When an expected file is missing or unreadable, \<^verbatim>\<open>load\<close> fails with
  the error of the first such file in the order of reading (the two mappings, then the
  roles in the order of \<open>NAMES\<close>) and leaves the disk as it is. It is not all-or-nothing:
  every entry whose file comes before the bad one has been stored in \<^verbatim>\<open>sys.modules\<close>
  with the value read from its file; every other entry of \<^verbatim>\<open>sys.modules\<close> is as before
  the call.
\<close>

theorem load_stops_at_first_bad_file:
  assumes "checkpoint_entries (abspath path) = pre @ bad # post"
    and "list_all (\<lambda>e. \<exists>v. read_entry (disk w) e = Inr v) pre"
    and "read_entry (disk w) bad = Inl err"
  shows "fst (load abspath path w) = Some err
     \<and> disk (snd (load abspath path w)) = disk w
     \<and> (\<forall>e \<in> set pre. read_entry (disk w) e = Inr (the (sys_modules (snd (load abspath path w)) (fst e)))
           \<and> sys_modules (snd (load abspath path w)) (fst e) \<noteq> None)
     \<and> (\<forall>k. k \<notin> fst ` set pre \<longrightarrow> sys_modules (snd (load abspath path w)) k = sys_modules w k)"
proof -
  have "distinct (map fst (pre @ bad # post))"
    using checkpoint_keys_distinct [of "abspath path"] assms(1) by simp
  then have dist: "distinct (map fst pre)" by simp
  from load_entries_stop [OF assms(2,3) dist, of post "sys_modules w"]
  obtain m' where m': "load_entries (disk w) (pre @ bad # post) (sys_modules w) = (Some err, m')"
    "\<forall>e \<in> set pre. Inr (the (m' (fst e))) = read_entry (disk w) e \<and> m' (fst e) \<noteq> None"
    "\<forall>k. k \<notin> fst ` set pre \<longrightarrow> m' k = sys_modules w k"
    by blast
  have "load abspath path w = (Some err, w\<lparr>sys_modules := m'\<rparr>)"
    using m'(1) assms(1) by (simp add: load_as_entries)
  then show ?thesis
    using m'(2,3) by auto
qed

text \<open>\<^verbatim>\<open>load\<close> fails exactly when one of the eight files cannot be read.\<close>

lemma load_fails_iff:
  "fst (load abspath path w) \<noteq> None \<longleftrightarrow>
     \<not> list_all (\<lambda>e. \<exists>v. read_entry (disk w) e = Inr v) (checkpoint_entries (abspath path))"
  using load_entries_ok_iff [of "disk w" "checkpoint_entries (abspath path)" "sys_modules w"]
  unfolding load_as_entries
  by (cases "load_entries (disk w) (checkpoint_entries (abspath path)) (sys_modules w)") auto

lemma partial_checkpoint_entries:
  "checkpoint_entries ''/ckpt'' =
     [(''seisflows_parameters'', ''/ckpt/seisflows_parameters.json'', True),
      (''seisflows_paths'', ''/ckpt/seisflows_paths.json'', True),
      (''seisflows_system'', ''/ckpt/seisflows_system.p'', False),
      (''seisflows_preprocess'', ''/ckpt/seisflows_preprocess.p'', False)]
     @ (''seisflows_solver'', ''/ckpt/seisflows_solver.p'', False)
     # [(''seisflows_postprocess'', ''/ckpt/seisflows_postprocess.p'', False),
        (''seisflows_optimize'', ''/ckpt/seisflows_optimize.p'', False),
        (''seisflows_workflow'', ''/ckpt/seisflows_workflow.p'', False)]"
  by (simp add: checkpoint_entries_def NAMES_def path_join_def)

text \<open>
  Witness for C2: the file of the solver is the first one missing; the two roles before it
  are registered, the roles after it are not.
\<close>

theorem load_stops_at_first_bad_file_witness:
  "fst (load (\<lambda>p. p) ''/ckpt'' partial_checkpoint) = Some FileNotFoundError
   \<and> sys_modules (snd (load (\<lambda>p. p) ''/ckpt'' partial_checkpoint)) ''seisflows_preprocess''
       = Some (VInstance ''Default'' [])
   \<and> sys_modules (snd (load (\<lambda>p. p) ''/ckpt'' partial_checkpoint)) ''seisflows_workflow'' = None"
proof -
  let ?pre = "[(''seisflows_parameters'', ''/ckpt/seisflows_parameters.json'', True),
      (''seisflows_paths'', ''/ckpt/seisflows_paths.json'', True),
      (''seisflows_system'', ''/ckpt/seisflows_system.p'', False),
      (''seisflows_preprocess'', ''/ckpt/seisflows_preprocess.p'', False)]"
  have ok: "list_all (\<lambda>e. \<exists>v. read_entry (disk partial_checkpoint) e = Inr v) ?pre"
    by (simp add: partial_checkpoint_def read_json_def read_pickle_def)
  have bad: "read_entry (disk partial_checkpoint) (''seisflows_solver'', ''/ckpt/seisflows_solver.p'', False)
      = Inl FileNotFoundError"
    by (simp add: partial_checkpoint_def read_pickle_def)
  have rd: "read_entry (disk partial_checkpoint)
      (''seisflows_preprocess'', ''/ckpt/seisflows_preprocess.p'', False) = Inr (VInstance ''Default'' [])"
    by (simp add: partial_checkpoint_def read_pickle_def)
  have em: "sys_modules partial_checkpoint ''seisflows_workflow'' = None"
    by (simp add: partial_checkpoint_def)
  note t = load_stops_at_first_bad_file [of "\<lambda>p. p" "''/ckpt''", OF partial_checkpoint_entries ok bad]
  from t have "fst (load (\<lambda>p. p) ''/ckpt'' partial_checkpoint) = Some FileNotFoundError"
    by blast
  moreover from t rd have "sys_modules (snd (load (\<lambda>p. p) ''/ckpt'' partial_checkpoint)) ''seisflows_preprocess''
       = Some (VInstance ''Default'' [])"
    by force
  moreover from t em have "sys_modules (snd (load (\<lambda>p. p) ''/ckpt'' partial_checkpoint)) ''seisflows_workflow'' = None"
    by simp
  ultimately show ?thesis by simp
qed

text \<open>
  Counterexample for C2 as stated: \<^verbatim>\<open>load\<close> fails on the directory without a solver file,
  and the role \<^verbatim>\<open>system\<close>, not registered before the call, has been registered from that
  directory.
\<close>

theorem load_not_all_or_nothing:
  "fst (load (\<lambda>p. p) ''/ckpt'' partial_checkpoint) = Some FileNotFoundError
   \<and> sys_modules partial_checkpoint ''seisflows_system'' = None
   \<and> sys_modules (snd (load (\<lambda>p. p) ''/ckpt'' partial_checkpoint)) ''seisflows_system''
       = Some (VInstance ''Workstation'' [])"
  by (simp add: load_def NAMES_def partial_checkpoint_def path_join_def read_json_def read_pickle_def)

subsection \<open>\<^verbatim>\<open>save\<close>\<close>

lemma save_json_entries:
  "save_json path mods names d =
     save_entries path mods (map (\<lambda>n. (n, path_join path (n @ ''.json''), True)) names) d"
  by (induction names arbitrary: d) (auto simp: Let_def split: sum.splits option.splits)

lemma save_pickle_entries:
  "save_pickle path mods names d =
     save_entries path mods
       (map (\<lambda>n. (''seisflows_'' @ n, path_join path (''seisflows_'' @ n @ ''.p''), False)) names) d"
  by (induction names arbitrary: d) (auto simp: Let_def split: sum.splits option.splits)

lemma save_entries_append:
  "save_entries path mods (xs @ ys) d =
     (case save_entries path mods xs d of
        (Some e, d1) \<Rightarrow> (Some e, d1)
      | (None, d1) \<Rightarrow> save_entries path mods ys d1)"
  by (induction xs arbitrary: d) (auto split: sum.splits)

lemma save_as_entries:
  "save path w =
     (case save_entries path (sys_modules w) (checkpoint_entries path)
             (if \<not> path_exists (disk w) path then unix_mkdir (disk w) path else disk w) of
        (r, d) \<Rightarrow> (r, w\<lparr>disk := d\<rparr>))"
  unfolding save_def checkpoint_entries_def save_entries_append save_json_entries save_pickle_entries Let_def
  by (auto split: prod.splits option.splits)

lemma save_entries_ok:
  assumes "dirs d = D" and "path \<in> D"
    and "list_all (\<lambda>e. fst (snd e) \<notin> D \<and> (\<exists>c. dump_entry mods e = Inr c)) es"
    and "distinct (map (\<lambda>e. fst (snd e)) es)"
  shows "\<exists>d'. save_entries path mods es d = (None, d')
     \<and> dirs d' = D
     \<and> (\<forall>e \<in> set es. dump_entry mods e = Inr (the (files d' (fst (snd e)))) \<and> files d' (fst (snd e)) \<noteq> None)
     \<and> (\<forall>f. f \<notin> (\<lambda>e. fst (snd e)) ` set es \<longrightarrow> files d' f = files d f)"
  using assms
proof (induction es arbitrary: d)
  case Nil
  then show ?case by simp
next
  case (Cons e es)
  then obtain c where c: "dump_entry mods e = Inr c" by auto
  let ?f = "fst (snd e)"
  let ?d1 = "write_file (d\<lparr>files := (files d)(?f \<mapsto> Partial)\<rparr>) ?f c"
  have nd: "?f \<notin> dirs d"
    using Cons.prems(1,3) by simp
  have ow: "open_write d path ?f = Inr (d\<lparr>files := (files d)(?f \<mapsto> Partial)\<rparr>)"
    using Cons.prems(1,2) nd by (simp add: open_write_def)
  have d1: "dirs ?d1 = D" using Cons.prems(1) by (simp add: write_file_def)
  from Cons.prems have p: "list_all (\<lambda>e. fst (snd e) \<notin> D \<and> (\<exists>c. dump_entry mods e = Inr c)) es"
    "distinct (map (\<lambda>e. fst (snd e)) es)" and nf: "?f \<notin> (\<lambda>e. fst (snd e)) ` set es"
    by auto
  from Cons.IH [OF d1 Cons.prems(2) p] obtain d' where d':
    "save_entries path mods es ?d1 = (None, d')" "dirs d' = D"
    "\<forall>x \<in> set es. dump_entry mods x = Inr (the (files d' (fst (snd x)))) \<and> files d' (fst (snd x)) \<noteq> None"
    "\<forall>f. f \<notin> (\<lambda>e. fst (snd e)) ` set es \<longrightarrow> files d' f = files ?d1 f"
    by blast
  have s: "save_entries path mods (e # es) d = (None, d')"
    using ow c d'(1) by simp
  have fe: "files d' ?f = Some c"
    using d'(4) nf by (simp add: write_file_def)
  have other: "files d' f = files d f" if "f \<notin> (\<lambda>e. fst (snd e)) ` set (e # es)" for f
    using that d'(4) by (simp add: write_file_def)
  show ?case
    using s d'(2,3) fe c other by (auto simp: write_file_def)
qed

lemma save_entries_None_iff:
  assumes "dirs d = D" and "path \<in> D"
  shows "fst (save_entries path mods es d) = None \<longleftrightarrow>
     list_all (\<lambda>e. fst (snd e) \<notin> D \<and> (\<exists>c. dump_entry mods e = Inr c)) es"
  using assms
proof (induction es arbitrary: d)
  case Nil
  then show ?case by simp
next
  case (Cons e es)
  show ?case
  proof (cases "fst (snd e) \<in> D")
    case True
    then have "open_write d path (fst (snd e)) = Inl IsADirectoryError"
      using Cons.prems by (simp add: open_write_def)
    then show ?thesis using True by simp
  next
    case False
    then have ow: "open_write d path (fst (snd e)) = Inr (d\<lparr>files := (files d)(fst (snd e) \<mapsto> Partial)\<rparr>)"
      using Cons.prems by (simp add: open_write_def)
    show ?thesis
    proof (cases "dump_entry mods e")
      case (Inl x)
      then show ?thesis using ow by simp
    next
      case (Inr c)
      have "dirs (write_file (d\<lparr>files := (files d)(fst (snd e) \<mapsto> Partial)\<rparr>) (fst (snd e)) c) = D"
        using Cons.prems by (simp add: write_file_def)
      from Cons.IH [OF this Cons.prems(2)] show ?thesis using ow Inr False by simp
    qed
  qed
qed

lemma path_join_relative:
  "b \<noteq> [] \<Longrightarrow> hd b \<noteq> CHR ''/'' \<Longrightarrow>
   path_join a b = (if a = [] \<or> last a = CHR ''/'' then a else a @ ''/'') @ b"
  by (simp add: path_join_def)

lemma checkpoint_files_eq:
  "checkpoint_files dir = map (\<lambda>b. (if dir = [] \<or> last dir = CHR ''/'' then dir else dir @ ''/'') @ b)
     [''seisflows_parameters.json'', ''seisflows_paths.json'', ''seisflows_system.p'',
      ''seisflows_preprocess.p'', ''seisflows_solver.p'', ''seisflows_postprocess.p'',
      ''seisflows_optimize.p'', ''seisflows_workflow.p'']"
  by (simp add: checkpoint_files_def checkpoint_entries_def NAMES_def path_join_def)

lemma checkpoint_files_distinct: "distinct (checkpoint_files dir)"
  unfolding checkpoint_files_eq by (simp add: distinct_map inj_on_def)

lemma json_dump_sorted:
  "json_dump v = Inr j \<Longrightarrow> sorted_keys j"
  "json_dump_list vs = Inr js \<Longrightarrow> list_all sorted_keys js"
  "json_dump_items d = Inr kjs \<Longrightarrow> list_all (\<lambda>kj. sorted_keys (snd kj)) kjs"
proof (induction v and vs and d arbitrary: j and js and kjs rule: json_dump_json_dump_list_json_dump_items.induct)
  case (6 d)
  then obtain kjs where k: "json_dump_items d = Inr kjs" "j = JObj (sort_key fst kjs)"
    by (auto split: sum.splits)
  have "list_all (\<lambda>kj. sorted_keys (snd kj)) kjs" using 6 k by simp
  then have "list_all (\<lambda>kj. sorted_keys (snd kj)) (sort_key fst kjs)"
    by (simp add: list_all_iff)
  then show ?case using k by (simp add: sorted_sort_key)
qed (auto split: sum.splits)

lemma pickle_roundtrip:
  "pickle_dump v = Inr k \<Longrightarrow> pickle_load k = Inr v"
  "pickle_dump_list vs = Inr ks \<Longrightarrow> pickle_load_list ks = Inr vs"
  "pickle_dump_items d = Inr kd \<Longrightarrow> pickle_load_items kd = Inr d"
  by (induction v and vs and d arbitrary: k and ks and kd
      rule: pickle_dump_pickle_dump_list_pickle_dump_items.induct)
    (auto split: sum.splits simp: pickle_method_raises)

lemma checkpoint_file_not_path: "f \<in> set (checkpoint_files path) \<Longrightarrow> f \<noteq> path"
proof
  assume f: "f \<in> set (checkpoint_files path)" and e: "f = path"
  from f have "length path < length f"
    unfolding checkpoint_files_eq by auto
  with e show False by simp
qed

text \<open>
  Claim C8 (amended). Let the target path not be a regular file and let none of the eight
  file names under it be a directory; let the two mappings be registered and serializable
  as JSON, and let every role have a registered instance that pickles. Then \<^verbatim>\<open>save\<close>
  returns without an exception and changes nothing in \<^verbatim>\<open>sys.modules\<close>; the directory
  exists afterwards (it is created when absent); each mapping is in its own file
  \<^verbatim>\<open><name>.json\<close>, written with indentation 4 and with the keys of every object sorted;
  each role is in its own file \<^verbatim>\<open>seisflows_<role>.p\<close> holding the pickle of its instance;
  these are eight different files, named from the mapping or role alone, and no other file
  is touched.
\<close>

theorem save_writes_checkpoint:
  assumes notfile: "files (disk w) path = None"
    and nodir: "\<forall>f \<in> set (checkpoint_files path). f \<notin> dirs (disk w)"
    and par: "sys_modules w ''seisflows_parameters'' = Some par" "json_dump par = Inr jpar"
    and pth: "sys_modules w ''seisflows_paths'' = Some pth" "json_dump pth = Inr jpth"
    and roles: "\<forall>name \<in> set NAMES.
        sys_modules w (''seisflows_'' @ name) = Some (inst name) \<and> pickle_dump (inst name) = Inr (pk name)"
  shows "fst (save path w) = None
     \<and> sys_modules (snd (save path w)) = sys_modules w
     \<and> dirs (disk (snd (save path w))) = insert path (dirs (disk w))
     \<and> files (disk (snd (save path w))) (path_join path ''seisflows_parameters.json'') = Some (JsonText 4 jpar)
     \<and> files (disk (snd (save path w))) (path_join path ''seisflows_paths.json'') = Some (JsonText 4 jpth)
     \<and> sorted_keys jpar \<and> sorted_keys jpth
     \<and> (\<forall>name \<in> set NAMES.
          files (disk (snd (save path w))) (path_join path (''seisflows_'' @ name @ ''.p''))
            = Some (PickleData (pk name)))
     \<and> (\<forall>f. f \<notin> set (checkpoint_files path) \<longrightarrow> files (disk (snd (save path w))) f = files (disk w) f)
     \<and> distinct (checkpoint_files path) \<and> length (checkpoint_files path) = 8"
proof -
  let ?d0 = "if \<not> path_exists (disk w) path then unix_mkdir (disk w) path else disk w"
  have d0: "path \<in> dirs ?d0" "dirs ?d0 = insert path (dirs (disk w))" "files ?d0 = files (disk w)"
    using notfile by (auto simp: path_exists_def unix_mkdir_def)
  have dump: "list_all (\<lambda>e. \<exists>c. dump_entry (sys_modules w) e = Inr c) (checkpoint_entries path)"
    using par pth roles by (simp add: checkpoint_entries_def list_all_iff)
  have free: "fst (snd e) \<notin> dirs ?d0" if "e \<in> set (checkpoint_entries path)" for e
  proof -
    from that have m: "fst (snd e) \<in> set (checkpoint_files path)"
      by (simp add: checkpoint_files_def)
    with nodir checkpoint_file_not_path [OF m] show ?thesis
      unfolding d0(2) by simp
  qed
  have ok: "list_all (\<lambda>e. fst (snd e) \<notin> dirs ?d0 \<and> (\<exists>c. dump_entry (sys_modules w) e = Inr c))
      (checkpoint_entries path)"
    using dump free by (simp add: list_all_iff)
  have dist: "distinct (map (\<lambda>e. fst (snd e)) (checkpoint_entries path))"
    using checkpoint_files_distinct [of path] by (simp add: checkpoint_files_def)
  from save_entries_ok [OF refl d0(1) ok dist] obtain d' where d':
    "save_entries path (sys_modules w) (checkpoint_entries path) ?d0 = (None, d')"
    "dirs d' = dirs ?d0"
    "\<forall>e \<in> set (checkpoint_entries path).
        dump_entry (sys_modules w) e = Inr (the (files d' (fst (snd e)))) \<and> files d' (fst (snd e)) \<noteq> None"
    "\<forall>f. f \<notin> (\<lambda>e. fst (snd e)) ` set (checkpoint_entries path) \<longrightarrow> files d' f = files ?d0 f"
    by blast
  have sv: "save path w = (None, w\<lparr>disk := d'\<rparr>)"
    using d'(1) by (simp add: save_as_entries)
  have written: "files d' f = Some c"
    if "(key, f, j) \<in> set (checkpoint_entries path)" "dump_entry (sys_modules w) (key, f, j) = Inr c"
    for key f j c
    using d'(3) that by force
  have e1: "(''seisflows_parameters'', path_join path ''seisflows_parameters.json'', True)
      \<in> set (checkpoint_entries path)"
    and e2: "(''seisflows_paths'', path_join path ''seisflows_paths.json'', True)
      \<in> set (checkpoint_entries path)"
    by (simp_all add: checkpoint_entries_def)
  have f1: "files d' (path_join path ''seisflows_parameters.json'') = Some (JsonText 4 jpar)"
    by (rule written [OF e1]) (simp add: par)
  have f2: "files d' (path_join path ''seisflows_paths.json'') = Some (JsonText 4 jpth)"
    by (rule written [OF e2]) (simp add: pth)
  have f3: "files d' (path_join path (''seisflows_'' @ name @ ''.p'')) = Some (PickleData (pk name))"
    if "name \<in> set NAMES" for name
  proof -
    have "(''seisflows_'' @ name, path_join path (''seisflows_'' @ name @ ''.p''), False)
        \<in> set (checkpoint_entries path)"
      using that by (simp add: checkpoint_entries_def)
    then show ?thesis
      by (rule written) (use roles that in simp)
  qed
  have f4: "files d' f = files (disk w) f" if "f \<notin> set (checkpoint_files path)" for f
    using d'(4) that d0(3) by (simp add: checkpoint_files_def)
  have len: "length (checkpoint_files path) = 8"
    by (simp add: checkpoint_files_eq)
  show ?thesis
    using sv d'(2) d0(2) f1 f2 f3 f4 len checkpoint_files_distinct [of path]
      json_dump_sorted(1) [OF par(2)] json_dump_sorted(1) [OF pth(2)]
    by simp
qed

lemma example_session_json:
  "json_dump (VDict [(''WORKFLOW'', VStr ''inversion''), (''NTASK'', VInt 2)])
     = Inr (JObj [(''NTASK'', JInt 2), (''WORKFLOW'', JStr ''inversion'')])"
  "json_dump (VDict [(''SCRATCH'', VStr ''scratch''), (''OUTPUT'', VStr ''output'')])
     = Inr (JObj [(''OUTPUT'', JStr ''output''), (''SCRATCH'', JStr ''scratch'')])"
  by code_simp+

text \<open>
  Witness for C8: the example session saved to the absent directory \<^verbatim>\<open>ckpt\<close>; the
  disabled role \<^verbatim>\<open>postprocess\<close> (\<^verbatim>\<open>None\<close>) gets a file as well.
\<close>

theorem save_writes_checkpoint_witness:
  "fst (save ''ckpt'' example_session) = None
   \<and> dirs (disk (snd (save ''ckpt'' example_session))) = {''ckpt''}
   \<and> files (disk (snd (save ''ckpt'' example_session))) ''ckpt/seisflows_parameters.json''
       = Some (JsonText 4 (JObj [(''NTASK'', JInt 2), (''WORKFLOW'', JStr ''inversion'')]))
   \<and> files (disk (snd (save ''ckpt'' example_session))) ''ckpt/seisflows_workflow.p''
       = Some (PickleData (KInst ''Inversion'' [(''iteration'', KInt 3)]))
   \<and> files (disk (snd (save ''ckpt'' example_session))) ''ckpt/seisflows_postprocess.p''
       = Some (PickleData KNone)
   \<and> files (disk (snd (save ''ckpt'' example_session))) ''ckpt/notes.txt'' = None"
proof -
  let ?inst = "\<lambda>name. the (sys_modules example_session (''seisflows_'' @ name))"
  let ?pk = "\<lambda>name. (case pickle_dump (?inst name) of Inr k \<Rightarrow> k | Inl e \<Rightarrow> KNone)"
  have h1: "files (disk example_session) ''ckpt'' = None"
    by (simp add: example_session_def)
  have h0: "\<forall>f \<in> set (checkpoint_files ''ckpt''). f \<notin> dirs (disk example_session)"
    by (simp add: example_session_def)
  have h2: "sys_modules example_session ''seisflows_parameters''
      = Some (VDict [(''WORKFLOW'', VStr ''inversion''), (''NTASK'', VInt 2)])"
    and h3: "sys_modules example_session ''seisflows_paths''
      = Some (VDict [(''SCRATCH'', VStr ''scratch''), (''OUTPUT'', VStr ''output'')])"
    by (simp_all add: example_session_def)
  have h4: "\<forall>name \<in> set NAMES.
      sys_modules example_session (''seisflows_'' @ name) = Some (?inst name)
      \<and> pickle_dump (?inst name) = Inr (?pk name)"
    by (simp add: NAMES_def example_session_def)
  have nf: "''ckpt/notes.txt'' \<notin> set (checkpoint_files ''ckpt'')"
    by (simp add: checkpoint_files_eq)
  have w: "''workflow'' \<in> set NAMES" and p: "''postprocess'' \<in> set NAMES"
    by (simp_all add: NAMES_def)
  have e: "dirs (disk example_session) = {}" "files (disk example_session) ''ckpt/notes.txt'' = None"
    by (simp_all add: example_session_def)
  have pj: "path_join ''ckpt'' ''seisflows_parameters.json'' = ''ckpt/seisflows_parameters.json''"
    "path_join ''ckpt'' (''seisflows_'' @ ''workflow'' @ ''.p'') = ''ckpt/seisflows_workflow.p''"
    "path_join ''ckpt'' (''seisflows_'' @ ''postprocess'' @ ''.p'') = ''ckpt/seisflows_postprocess.p''"
    by (simp_all add: path_join_def)
  have pk: "?pk ''workflow'' = KInst ''Inversion'' [(''iteration'', KInt 3)]" "?pk ''postprocess'' = KNone"
    by (simp_all add: example_session_def)
  note t = save_writes_checkpoint [OF h1 h0 h2 example_session_json(1) h3 example_session_json(2) h4]
  from t have c1: "fst (save ''ckpt'' example_session) = None"
    by blast
  from t have c2: "dirs (disk (snd (save ''ckpt'' example_session))) = insert ''ckpt'' (dirs (disk example_session))"
    by blast
  from t have c3: "files (disk (snd (save ''ckpt'' example_session)))
      (path_join ''ckpt'' ''seisflows_parameters.json'')
       = Some (JsonText 4 (JObj [(''NTASK'', JInt 2), (''WORKFLOW'', JStr ''inversion'')]))"
    by blast
  from t have c4: "\<forall>name \<in> set NAMES.
      files (disk (snd (save ''ckpt'' example_session))) (path_join ''ckpt'' (''seisflows_'' @ name @ ''.p''))
        = Some (PickleData (?pk name))"
    by blast
  from t have c5: "\<forall>f. f \<notin> set (checkpoint_files ''ckpt'') \<longrightarrow>
      files (disk (snd (save ''ckpt'' example_session))) f = files (disk example_session) f"
    by blast
  from c4 w have c6: "files (disk (snd (save ''ckpt'' example_session)))
      (path_join ''ckpt'' (''seisflows_'' @ ''workflow'' @ ''.p'')) = Some (PickleData (?pk ''workflow''))"
    by blast
  from c4 p have c7: "files (disk (snd (save ''ckpt'' example_session)))
      (path_join ''ckpt'' (''seisflows_'' @ ''postprocess'' @ ''.p'')) = Some (PickleData (?pk ''postprocess''))"
    by blast
  from c5 nf have c8: "files (disk (snd (save ''ckpt'' example_session))) ''ckpt/notes.txt''
      = files (disk example_session) ''ckpt/notes.txt''"
    by blast
  show ?thesis
    using c1 c2 c3 c6 c7 c8 unfolding pj pk e by simp
qed

text \<open>
  Counterexample for C8 as stated. In the session whose solver keeps a lambda in its state
  \<^verbatim>\<open>pickle.dump\<close> raises \<^verbatim>\<open>PicklingError\<close>: \<^verbatim>\<open>save\<close> stops at the solver, whose file
  is left incomplete, and writes no file for the three roles after it. Before a directory in
  which a directory has the name of the paths file, \<^verbatim>\<open>open\<close> raises
  \<^verbatim>\<open>IsADirectoryError\<close> and no role is written.
\<close>

theorem save_stops_at_unserializable:
  "fst (save ''ckpt'' local_function_session) = Some PicklingError
   \<and> files (disk (snd (save ''ckpt'' local_function_session))) ''ckpt/seisflows_solver.p'' = Some Partial
   \<and> files (disk (snd (save ''ckpt'' local_function_session))) ''ckpt/seisflows_workflow.p'' = None
   \<and> fst (save ''ckpt'' occupied_session) = Some IsADirectoryError
   \<and> files (disk (snd (save ''ckpt'' occupied_session))) ''ckpt/seisflows_system.p'' = None"
proof -
  have j: "json_dump (VDict [(''WORKFLOW'', VStr ''inversion''), (''NTASK'', VInt 2)])
     = Inr (JObj [(''NTASK'', JInt 2), (''WORKFLOW'', JStr ''inversion'')])"
    "json_dump (VDict [(''SCRATCH'', VStr ''scratch''), (''OUTPUT'', VStr ''output'')])
     = Inr (JObj [(''OUTPUT'', JStr ''output''), (''SCRATCH'', JStr ''scratch'')])"
    by code_simp+
  have s1: "save ''ckpt'' local_function_session =
    (Some PicklingError,
     local_function_session\<lparr>disk := \<lparr>dirs = {''ckpt''},
       files = [''ckpt/seisflows_parameters.json'' \<mapsto> JsonText 4 (JObj [(''NTASK'', JInt 2), (''WORKFLOW'', JStr ''inversion'')]),
                ''ckpt/seisflows_paths.json'' \<mapsto> JsonText 4 (JObj [(''OUTPUT'', JStr ''output''), (''SCRATCH'', JStr ''scratch'')]),
                ''ckpt/seisflows_system.p'' \<mapsto> PickleData (KInst ''Workstation'' []),
                ''ckpt/seisflows_preprocess.p'' \<mapsto> PickleData (KInst ''Default'' []),
                ''ckpt/seisflows_solver.p'' \<mapsto> Partial]\<rparr>\<rparr>)"
    unfolding save_def NAMES_def local_function_session_def example_session_def
    by (simp add: j Let_def path_exists_def unix_mkdir_def path_join_def open_write_def write_file_def)
  have s2: "save ''ckpt'' occupied_session =
    (Some IsADirectoryError,
     occupied_session\<lparr>disk := \<lparr>dirs = {''ckpt'', ''ckpt/seisflows_paths.json''},
       files = [''ckpt/seisflows_parameters.json'' \<mapsto>
                  JsonText 4 (JObj [(''NTASK'', JInt 2), (''WORKFLOW'', JStr ''inversion'')])]\<rparr>\<rparr>)"
    unfolding save_def NAMES_def occupied_session_def example_session_def
    by (simp add: j Let_def path_exists_def unix_mkdir_def path_join_def open_write_def write_file_def)
  show ?thesis
    unfolding s1 s2 by simp
qed

subsection \<open>\<^verbatim>\<open>save\<close> followed by \<^verbatim>\<open>load\<close>\<close>

text \<open>
  Whenever \<^verbatim>\<open>save\<close> returns normally, \<^verbatim>\<open>load\<close> of the same directory into any process
  succeeds and registers, for every role, the value that was saved. (The path is one that
  \<^verbatim>\<open>os.path.abspath\<close> leaves unchanged, and the two configuration entries are
  dictionaries.)
\<close>

lemma json_dump_dict_reload:
  "json_dump (VDict d) = Inr j \<Longrightarrow> \<exists>d'. Dict (json_load j) = Inr (VDict d')"
  by (auto split: sum.splits)

lemma save_load_roundtrip:
  assumes notfile: "files (disk w) path = None"
    and abs: "abspath path = path"
    and par: "sys_modules w ''seisflows_parameters'' = Some (VDict par)"
    and pth: "sys_modules w ''seisflows_paths'' = Some (VDict pth)"
    and saved: "fst (save path w) = None"
  shows "fst (load abspath path \<lparr>sys_modules = m0, disk = disk (snd (save path w))\<rparr>) = None
     \<and> (\<forall>name \<in> set NAMES.
          sys_modules (snd (load abspath path \<lparr>sys_modules = m0, disk = disk (snd (save path w))\<rparr>))
            (''seisflows_'' @ name) = sys_modules w (''seisflows_'' @ name))"
proof -
  let ?d0 = "if \<not> path_exists (disk w) path then unix_mkdir (disk w) path else disk w"
  let ?es = "checkpoint_entries path"
  have d0: "path \<in> dirs ?d0"
    using notfile by (auto simp: path_exists_def unix_mkdir_def)
  have "fst (save_entries path (sys_modules w) ?es ?d0) = None"
    using saved unfolding save_as_entries
    by (cases "save_entries path (sys_modules w) ?es ?d0") simp
  then have ok: "list_all (\<lambda>e. fst (snd e) \<notin> dirs ?d0 \<and> (\<exists>c. dump_entry (sys_modules w) e = Inr c)) ?es"
    using save_entries_None_iff [OF refl d0] by blast
  have dist: "distinct (map (\<lambda>e. fst (snd e)) ?es)"
    using checkpoint_files_distinct [of path] by (simp add: checkpoint_files_def)
  from save_entries_ok [OF refl d0 ok dist] obtain d' where d':
    "save_entries path (sys_modules w) ?es ?d0 = (None, d')"
    "\<forall>e \<in> set ?es. dump_entry (sys_modules w) e = Inr (the (files d' (fst (snd e)))) \<and> files d' (fst (snd e)) \<noteq> None"
    by blast
  have sv: "disk (snd (save path w)) = d'"
    using d'(1) by (simp add: save_as_entries)
  have rd: "\<exists>v. read_entry d' (key, f, j) = Inr v \<and> (\<not> j \<longrightarrow> sys_modules w key = Some v)"
    if mem: "(key, f, j) \<in> set ?es" for key f j
  proof -
    from d'(2) mem obtain c where c: "files d' f = Some c" "dump_entry (sys_modules w) (key, f, j) = Inr c"
      by force
    show ?thesis
    proof (cases j)
      case True
      with mem have "key = ''seisflows_parameters'' \<or> key = ''seisflows_paths''"
        by (auto simp: checkpoint_entries_def)
      then obtain dd where dd: "sys_modules w key = Some (VDict dd)"
        using par pth by auto
      with c True obtain jj where jj: "json_dump (VDict dd) = Inr jj" "c = JsonText 4 jj"
        by (auto split: sum.splits)
      from json_dump_dict_reload [OF jj(1)] obtain d2 where "Dict (json_load jj) = Inr (VDict d2)"
        by blast
      then show ?thesis using True c(1) jj(2) by (simp add: read_json_def)
    next
      case False
      with c obtain v k where vk: "sys_modules w key = Some v" "pickle_dump v = Inr k" "c = PickleData k"
        by (auto split: option.splits sum.splits)
      then show ?thesis
        using False c(1) pickle_roundtrip(1) [OF vk(2)] by (simp add: read_pickle_def)
    qed
  qed
  have rok: "list_all (\<lambda>e. \<exists>v. read_entry d' e = Inr v) ?es"
    unfolding list_all_iff using rd by (metis prod_cases3)
  from load_entries_ok [OF rok checkpoint_keys_distinct, of m0] obtain m' where m':
    "load_entries d' ?es m0 = (None, m')"
    "\<forall>e \<in> set ?es. Inr (the (m' (fst e))) = read_entry d' e \<and> m' (fst e) \<noteq> None"
    by blast
  have ld: "load abspath path \<lparr>sys_modules = m0, disk = d'\<rparr> = (None, \<lparr>sys_modules = m', disk = d'\<rparr>)"
    using m'(1) abs by (simp add: load_as_entries)
  have "m' (''seisflows_'' @ name) = sys_modules w (''seisflows_'' @ name)" if "name \<in> set NAMES" for name
  proof -
    have mem: "(''seisflows_'' @ name, path_join path (''seisflows_'' @ name @ ''.p''), False) \<in> set ?es"
      using that by (simp add: checkpoint_entries_def)
    from rd [OF mem] obtain v where v:
      "read_entry d' (''seisflows_'' @ name, path_join path (''seisflows_'' @ name @ ''.p''), False) = Inr v"
      "sys_modules w (''seisflows_'' @ name) = Some v"
      by auto
    from m'(2) mem v(1) have "m' (''seisflows_'' @ name) = Some v"
      by force
    with v(2) show ?thesis by simp
  qed
  then show ?thesis
    using ld sv by simp
qed

text \<open>
  Claim C1 (the code departs from it). The round trip is to preserve bound callables.
  In the session whose workflow keeps a bound method in its state, \<^verbatim>\<open>save\<close> raises
  \<^verbatim>\<open>AttributeError\<close>: pickle hands the method to \<^verbatim>\<open>_pickle_method\<close>, which reads the
  Python 2 attribute \<^verbatim>\<open>im_func\<close>. The file of the workflow is left incomplete, and
  \<^verbatim>\<open>load\<close> of that directory fails. By \<open>save_load_roundtrip\<close> the round trip holds for
  every session that \<^verbatim>\<open>save\<close> accepts; a session with a bound method is not one.
\<close>

theorem save_fails_on_bound_method:
  "fst (save ''ckpt'' bound_method_session) = Some AttributeError
   \<and> files (disk (snd (save ''ckpt'' bound_method_session))) ''ckpt/seisflows_workflow.p'' = Some Partial
   \<and> fst (load (\<lambda>p. p) ''ckpt'' (snd (save ''ckpt'' bound_method_session))) = Some UnpicklingError"
proof -
  have j: "json_dump (VDict [(''WORKFLOW'', VStr ''inversion''), (''NTASK'', VInt 2)])
     = Inr (JObj [(''NTASK'', JInt 2), (''WORKFLOW'', JStr ''inversion'')])"
    "json_dump (VDict [(''SCRATCH'', VStr ''scratch''), (''OUTPUT'', VStr ''output'')])
     = Inr (JObj [(''OUTPUT'', JStr ''output''), (''SCRATCH'', JStr ''scratch'')])"
    by code_simp+
  have s: "save ''ckpt'' bound_method_session =
    (Some AttributeError,
     bound_method_session\<lparr>disk := \<lparr>dirs = {''ckpt''},
       files = [''ckpt/seisflows_parameters.json'' \<mapsto> JsonText 4 (JObj [(''NTASK'', JInt 2), (''WORKFLOW'', JStr ''inversion'')]),
                ''ckpt/seisflows_paths.json'' \<mapsto> JsonText 4 (JObj [(''OUTPUT'', JStr ''output''), (''SCRATCH'', JStr ''scratch'')]),
                ''ckpt/seisflows_system.p'' \<mapsto> PickleData (KInst ''Workstation'' []),
                ''ckpt/seisflows_preprocess.p'' \<mapsto> PickleData (KInst ''Default'' []),
                ''ckpt/seisflows_solver.p'' \<mapsto> PickleData (KInst ''Specfem2D'' [(''taskid'', KInt 0)]),
                ''ckpt/seisflows_postprocess.p'' \<mapsto> PickleData KNone,
                ''ckpt/seisflows_optimize.p'' \<mapsto> PickleData (KInst ''LBFGS'' [(''iter'', KInt 3)]),
                ''ckpt/seisflows_workflow.p'' \<mapsto> Partial]\<rparr>\<rparr>)"
    unfolding save_def NAMES_def bound_method_session_def example_session_def
    by (simp add: j Let_def path_exists_def unix_mkdir_def path_join_def open_write_def write_file_def
        pickle_method_raises)
  show ?thesis
    unfolding s
    by (simp add: load_def NAMES_def path_join_def read_json_def read_pickle_def)
qed


end
